theory Spec2Isabelle
  imports Main
begin

section \<open>Instants and the date helpers\<close>

text \<open>
  A JavaScript \<open>Date\<close> is a number of milliseconds.  The model keeps the local
  wall-clock reading: an instant is the number of milliseconds since
  1970-01-01T00:00:00 local time, and an ISO text \<open>YYYY-MM-DDTHH:mm:ss\<close> is identified
  with the instant it denotes.  Daylight-saving shifts and unparsable texts are outside
  the model: every request carries a well-formed local date-time, for which
  \<open>new Date\<close> and \<open>parseISO\<close> agree.
\<close>

type_synonym instant = int

definition addMinutes :: "instant \<Rightarrow> int \<Rightarrow> instant" where
  "addMinutes d n = d + n * 60000"

definition isBefore :: "instant \<Rightarrow> instant \<Rightarrow> bool" where
  "isBefore a b = (a < b)"

definition isAfter :: "instant \<Rightarrow> instant \<Rightarrow> bool" where
  "isAfter a b = (b < a)"

definition startOfDay :: "instant \<Rightarrow> instant" where
  "startOfDay d = d - d mod 86400000"

definition isSameDay :: "instant \<Rightarrow> instant \<Rightarrow> bool" where
  "isSameDay a b = (startOfDay a = startOfDay b)"

text \<open>\<open>Date.getDay\<close>: 0 is Sunday; 1970-01-01 was a Thursday.\<close>

definition weekdayKey :: "instant \<Rightarrow> int" where
  "weekdayKey d = (d div 86400000 + 4) mod 7"

text \<open>
  \<open>formatISO(d, {representation: "complete"}).slice(0, 19)\<close> keeps the text down to the
  seconds; read back by \<open>parseISO\<close> it is the instant with its milliseconds dropped.
\<close>

definition formatISO19 :: "instant \<Rightarrow> instant" where
  "formatISO19 d = d - d mod 1000"

text \<open>
  \<open>areIntervalsOverlapping\<close> of date-fns, with its \<open>inclusive\<close> option: each interval's
  end points are put in order, then compared.  (Releases before version 3 throw on an
  interval whose start is after its end instead of ordering it; the intervals the
  handlers store and test always run forwards, see \<open>reachable_forwardIntervals\<close> and
  \<open>intervalWithBuffer_forward\<close>, so the two behaviours agree here.)
\<close>

definition areIntervalsOverlapping ::
  "instant \<times> instant \<Rightarrow> instant \<times> instant \<Rightarrow> bool \<Rightarrow> bool" where
  "areIntervalsOverlapping l r inclusive =
     (let leftStart = min (fst l) (snd l); leftEnd = max (fst l) (snd l);
          rightStart = min (fst r) (snd r); rightEnd = max (fst r) (snd r)
      in if inclusive then leftStart \<le> rightEnd \<and> rightStart \<le> leftEnd
         else leftStart < rightEnd \<and> rightStart < leftEnd)"

section \<open>Configuration\<close>

record service_def =
  svc_name :: string
  duration :: int
  price :: int

record bundle_def =
  bundle_id :: string
  label :: string
  services :: "string list"
  bundle_price :: int
  totalMinutes :: int

text \<open>Opening and closing time of a weekday, each as hours and minutes.\<close>

record hours =
  open_hhmm :: "int \<times> int"
  close_hhmm :: "int \<times> int"

definition WEEKLY_HOURS :: "int \<Rightarrow> hours option" where
  "WEEKLY_HOURS = map_of
     [(1, \<lparr>open_hhmm = (7, 0), close_hhmm = (18, 0)\<rparr>),
      (2, \<lparr>open_hhmm = (7, 0), close_hhmm = (12, 0)\<rparr>),
      (3, \<lparr>open_hhmm = (7, 0), close_hhmm = (18, 0)\<rparr>),
      (4, \<lparr>open_hhmm = (7, 0), close_hhmm = (12, 0)\<rparr>),
      (5, \<lparr>open_hhmm = (7, 0), close_hhmm = (18, 0)\<rparr>)]"

text \<open>
  The catalog, as a lookup by key.  A key is a text for which the object literal has no
  inherited property: \<open>constructor\<close>, \<open>toString\<close>, \<open>__proto__\<close> and the other property
  names of \<open>Object.prototype\<close> are outside the model (for them \<open>SERVICES[key]\<close> is
  neither a catalog entry nor \<open>undefined\<close>).
\<close>

definition SERVICES :: "string \<Rightarrow> service_def option" where
  "SERVICES = map_of
     [(''sauna'', \<lparr>svc_name = ''Infrared Sauna'', duration = 15, price = 10\<rparr>),
      (''hbot'', \<lparr>svc_name = ''Mild Hyperbaric Oxygen Therapy'', duration = 60, price = 75\<rparr>),
      (''icebath'', \<lparr>svc_name = ''Cold Plunge'', duration = 10, price = 10\<rparr>),
      (''redlight'', \<lparr>svc_name = ''Red Light Therapy'', duration = 15, price = 10\<rparr>),
      (''hydrogen'', \<lparr>svc_name = ''Hydrogen Therapy'', duration = 20, price = 20\<rparr>),
      (''lymph'', \<lparr>svc_name = ''Lymph Vibe Plate'', duration = 15, price = 10\<rparr>)]"

definition BUFFERS :: "string \<Rightarrow> int option" where
  "BUFFERS = map_of
     [(''sauna'', 0), (''hbot'', 30), (''icebath'', 0),
      (''redlight'', 5), (''hydrogen'', 5), (''lymph'', 5)]"

text \<open>\<open>BUFFERS[k] || 0\<close>\<close>

definition bufferOf :: "string \<Rightarrow> int" where
  "bufferOf k = (case BUFFERS k of None \<Rightarrow> 0 | Some b \<Rightarrow> b)"

definition BUNDLES :: "bundle_def list" where
  "BUNDLES =
     [\<lparr>bundle_id = ''bundle_alt_cold_sauna'', label = ''Cold Plunge + Sauna Alternating Therapy'',
       services = [''icebath'', ''sauna''], bundle_price = 20, totalMinutes = 30\<rparr>,
      \<lparr>bundle_id = ''bundle_red_lymph'', label = ''Red Light + Lymph Vibe Plate'',
       services = [''redlight'', ''lymph''], bundle_price = 15, totalMinutes = 15\<rparr>,
      \<lparr>bundle_id = ''bundle_hbot_sauna'', label = ''mHBOT + Sauna'',
       services = [''hbot'', ''sauna''], bundle_price = 80, totalMinutes = 90\<rparr>,
      \<lparr>bundle_id = ''bundle_hbot_sauna_cold'', label = ''mHBOT + Sauna + Ice Bath'',
       services = [''hbot'', ''sauna'', ''icebath''], bundle_price = 85, totalMinutes = 90\<rparr>,
      \<lparr>bundle_id = ''bundle_premium_rejuv'', label = ''Premium Rejuvenation Bundle'',
       services = [''hbot'', ''sauna'', ''icebath'', ''redlight''],
       bundle_price = 95, totalMinutes = 105\<rparr>,
      \<lparr>bundle_id = ''bundle_platinum_rejuv'', label = ''Platinum Rejuvenation Bundle'',
       services = [''hbot'', ''sauna'', ''icebath'', ''redlight'', ''hydrogen''],
       bundle_price = 105, totalMinutes = 120\<rparr>]"

definition SLOT :: int where
  "SLOT = 15"

definition SAME_DAY_CUTOFF_MIN :: int where
  "SAME_DAY_CUTOFF_MIN = 0"

definition HOLD_TTL_MIN :: int where
  "HOLD_TTL_MIN = 12"

section \<open>The record store\<close>

record user =
  u_email :: string
  u_name :: string
  hbotCredits :: int

record hold =
  h_id :: nat
  h_type :: string
  h_groupId :: "nat option"
  h_bundleId :: "string option"
  h_service :: string
  h_startISO :: instant
  h_endISO :: instant
  h_endISOWB :: instant
  h_email :: "string option"
  unitAmount :: "int option"
  amount :: "int option"
  expireAt :: instant
  h_createdAt :: instant

record booking =
  b_id :: nat
  b_groupId :: "nat option"
  b_service :: string
  b_startISO :: instant
  b_endISO :: instant
  clientEmail :: "string option"
  paidSessionId :: string
  b_createdAt :: instant

text \<open>
  The three collections, in insertion order, and the source of fresh identifiers
  (\<open>nanoid()\<close>, or the key the database generates).
\<close>

record store =
  Users :: "user list"
  Bookings :: "booking list"
  Holds :: "hold list"
  nextId :: nat

definition emptyStore :: store where
  "emptyStore = \<lparr>Users = [], Bookings = [], Holds = [], nextId = 0\<rparr>"

text \<open>
  The two servers.  The behaviour of the Prisma one depends on the time zone of its
  process (see \<open>withinHoursPrisma\<close>), so it carries the offset of local time from UTC,
  in minutes: 0 at UTC, -360 for America/Chicago in winter.  \<open>Prisma\<close> alone stands for
  the Prisma server in a process at UTC.
\<close>

datatype backend = Mongo | PrismaAt int

abbreviation Prisma :: backend where
  "Prisma \<equiv> PrismaAt 0"

text \<open>
  What a handler can throw: reading a property of \<open>undefined\<close>, and Prisma Client's
  refusal of a query that names a field the model does not have.
\<close>

datatype error = TypeError | PrismaClientValidationError

text \<open>A cookie or a stored e-mail: \<open>x || null\<close> turns the empty text into \<open>null\<close>.\<close>

definition orNull :: "string option \<Rightarrow> string option" where
  "orNull x = (case x of None \<Rightarrow> None | Some s \<Rightarrow> if s = [] then None else Some s)"

definition findUser :: "store \<Rightarrow> string \<Rightarrow> user option" where
  "findUser st email = find (\<lambda>u. u_email u = email) (Users st)"

text \<open>\<open>Users.updateOne({ email }, { $inc: { hbotCredits: n } })\<close>: the first match.\<close>

fun incCredits :: "string \<Rightarrow> int \<Rightarrow> user list \<Rightarrow> user list" where
  "incCredits email n [] = []"
| "incCredits email n (u # us) =
     (if u_email u = email then u\<lparr>hbotCredits := hbotCredits u + n\<rparr> # us
      else u # incCredits email n us)"

text \<open>\<open>Holds.deleteOne({ _id })\<close>: the first match.\<close>

fun deleteOne :: "nat \<Rightarrow> hold list \<Rightarrow> hold list" where
  "deleteOne hid [] = []"
| "deleteOne hid (h # hs) = (if h_id h = hid then hs else h # deleteOne hid hs)"

text \<open>
  The expiry index of the Mongo collection
  (\<open>Holds.createIndex({ expireAt: 1 }, { expireAfterSeconds: 0 })\<close>): a background pass
  that removes the holds whose expiry has come.  The Prisma server has no such pass.
\<close>

definition sweepExpired :: "instant \<Rightarrow> store \<Rightarrow> store" where
  "sweepExpired now st = st\<lparr>Holds := filter (\<lambda>h. now < expireAt h) (Holds st)\<rparr>"

section \<open>Calendar\<close>

record window =
  w_open :: instant
  w_close :: instant

definition toDay :: "instant \<Rightarrow> int \<times> int \<Rightarrow> instant" where
  "toDay d hhmm = startOfDay d + fst hhmm * 3600000 + snd hhmm * 60000"

definition businessWindowOn :: "instant \<Rightarrow> window option" where
  "businessWindowOn dateISO =
     (case WEEKLY_HOURS (weekdayKey dateISO) of
        None \<Rightarrow> None
      | Some cfg \<Rightarrow>
          Some \<lparr>w_open = toDay dateISO (open_hhmm cfg), w_close = toDay dateISO (close_hhmm cfg)\<rparr>)"

record interval =
  i_start :: instant
  i_end :: instant
  i_endWB :: instant

text \<open>Reading \<open>.duration\<close> of an unknown service key throws.\<close>

definition intervalWithBuffer :: "string \<Rightarrow> instant \<Rightarrow> error + interval" where
  "intervalWithBuffer serviceKey start =
     (case SERVICES serviceKey of
        None \<Rightarrow> Inl TypeError
      | Some svc \<Rightarrow>
          (let e = addMinutes start (duration svc);
               eWB = addMinutes e (bufferOf serviceKey)
           in Inr \<lparr>i_start = start, i_end = e, i_endWB = eWB\<rparr>))"

definition withinHoursMongo :: "string \<Rightarrow> instant \<Rightarrow> error + bool" where
  "withinHoursMongo serviceKey startISO =
     (case businessWindowOn startISO of
        None \<Rightarrow> Inr False
      | Some win \<Rightarrow>
          (case intervalWithBuffer serviceKey startISO of
             Inl e \<Rightarrow> Inl e
           | Inr iv \<Rightarrow>
               if isBefore (i_start iv) (w_open win) then Inr False
               else if isAfter (i_end iv) (w_close win) then Inr False
               else Inr True))"

text \<open>
  The Prisma variant asks for the window of \<open>formatISO(d, { representation: "date" })\<close>,
  the day of the start as a date-only text.  Its \<open>businessWindowOn\<close> reads that text
  with \<open>new Date\<close>, and a date-only text is read as midnight UTC: on the local clock
  that is the local midnight of the day moved by the zone's offset, so west of UTC it
  falls on the evening before.
\<close>

definition dateOnlyToDate :: "int \<Rightarrow> instant \<Rightarrow> instant" where
  "dateOnlyToDate utcOffset d = addMinutes (startOfDay d) utcOffset"

definition withinHoursPrisma :: "int \<Rightarrow> string \<Rightarrow> instant \<Rightarrow> error + bool" where
  "withinHoursPrisma utcOffset serviceKey startISO =
     (let d = startISO in
      case businessWindowOn (dateOnlyToDate utcOffset d) of
        None \<Rightarrow> Inr False
      | Some win \<Rightarrow>
          (case intervalWithBuffer serviceKey d of
             Inl e \<Rightarrow> Inl e
           | Inr iv \<Rightarrow>
               Inr (\<not> isAfter d (w_close win) \<and> \<not> isAfter (i_end iv) (w_close win)
                    \<and> \<not> isAfter (w_open win) d)))"

definition withinHours :: "backend \<Rightarrow> string \<Rightarrow> instant \<Rightarrow> error + bool" where
  "withinHours be serviceKey startISO =
     (case be of Mongo \<Rightarrow> withinHoursMongo serviceKey startISO
               | PrismaAt utcOffset \<Rightarrow> withinHoursPrisma utcOffset serviceKey startISO)"

definition sameDayCutoffOKMongo :: "instant \<Rightarrow> instant \<Rightarrow> bool" where
  "sameDayCutoffOKMongo startISO now =
     (if SAME_DAY_CUTOFF_MIN = 0 then True
      else if isSameDay startISO now then SAME_DAY_CUTOFF_MIN * 60000 \<le> startISO - now
      else True)"

definition sameDayCutoffOKPrisma :: "instant \<Rightarrow> instant \<Rightarrow> bool" where
  "sameDayCutoffOKPrisma startISO now =
     (if SAME_DAY_CUTOFF_MIN \<le> 0 then True
      else if isSameDay now startISO then addMinutes now SAME_DAY_CUTOFF_MIN \<le> startISO
      else True)"

definition sameDayCutoffOK :: "backend \<Rightarrow> instant \<Rightarrow> instant \<Rightarrow> bool" where
  "sameDayCutoffOK be startISO now =
     (case be of Mongo \<Rightarrow> sameDayCutoffOKMongo startISO now
               | PrismaAt utcOffset \<Rightarrow> sameDayCutoffOKPrisma startISO now)"

section \<open>Conflict check\<close>

definition overlapsMongo :: "instant \<Rightarrow> store \<Rightarrow> string \<Rightarrow> instant \<Rightarrow> instant \<Rightarrow> bool" where
  "overlapsMongo now st serviceKey start endWB =
     (let existing = filter (\<lambda>b. b_service b = serviceKey) (Bookings st);
          hitBooking = list_ex (\<lambda>b.
            let buf = bufferOf (b_service b);
                startB = b_startISO b;
                endBWB = addMinutes (b_endISO b) buf
            in areIntervalsOverlapping (start, endWB) (startB, endBWB) True) existing
      in if hitBooking then True
         else
           (let holds = filter (\<lambda>h. h_service h = serviceKey \<and> now < expireAt h) (Holds st)
            in list_ex (\<lambda>h.
                 areIntervalsOverlapping (start, endWB) (h_startISO h, h_endISOWB h) True) holds))"

definition overlapsPrisma :: "instant \<Rightarrow> store \<Rightarrow> string \<Rightarrow> instant \<Rightarrow> instant \<Rightarrow> bool" where
  "overlapsPrisma now st serviceKey start endWB =
     (let existing = filter (\<lambda>b. b_service b = serviceKey \<and> b_startISO b < endWB
                                  \<and> start < b_endISO b) (Bookings st);
          holds = filter (\<lambda>h. h_service h = serviceKey \<and> h_startISO h < endWB
                               \<and> start < h_endISOWB h \<and> now < expireAt h) (Holds st)
      in 0 < length existing \<or> 0 < length holds)"

definition overlaps :: "backend \<Rightarrow> instant \<Rightarrow> store \<Rightarrow> string \<Rightarrow> instant \<Rightarrow> instant \<Rightarrow> bool" where
  "overlaps be now st serviceKey start endWB =
     (case be of Mongo \<Rightarrow> overlapsMongo now st serviceKey start endWB
               | PrismaAt utcOffset \<Rightarrow> overlapsPrisma now st serviceKey start endWB)"

section \<open>Pricing\<close>

definition userPriceFor :: "string \<Rightarrow> user option \<Rightarrow> error + int" where
  "userPriceFor serviceKey u =
     (if serviceKey = ''hbot'' \<and> (case u of None \<Rightarrow> False | Some usr \<Rightarrow> 0 < hbotCredits usr)
      then Inr 60
      else (case SERVICES serviceKey of None \<Rightarrow> Inl TypeError | Some svc \<Rightarrow> Inr (price svc)))"

section \<open>Availability\<close>

record slot =
  s_startISO :: instant
  s_endISO :: instant

datatype availability_response = BadParams | Slots "slot list"

text \<open>The \<open>while\<close> loop of \<open>/api/availability\<close>: the cursor and the slots pushed so far.\<close>

function availabilityLoop ::
  "backend \<Rightarrow> instant \<Rightarrow> store \<Rightarrow> string \<Rightarrow> int \<Rightarrow> instant \<Rightarrow> instant \<Rightarrow> slot list
     \<Rightarrow> error + slot list" where
  "availabilityLoop be now st service dur close cursor out =
     (if \<not> isAfter (addMinutes cursor dur) close then
        (case intervalWithBuffer service cursor of
           Inl e \<Rightarrow> Inl e
         | Inr iv \<Rightarrow>
             availabilityLoop be now st service dur close (addMinutes cursor SLOT)
               (if \<not> overlaps be now st service (i_start iv) (i_endWB iv)
                then out @ [\<lparr>s_startISO = formatISO19 (i_start iv),
                             s_endISO = formatISO19 (i_end iv)\<rparr>]
                else out))
      else Inr out)"
  by pat_completeness auto
termination
  by (relation "measure (\<lambda>(be, now, st, service, dur, close, cursor, out).
        nat (close - addMinutes cursor dur + 1))")
     (auto simp: isAfter_def addMinutes_def SLOT_def)

declare availabilityLoop.simps [simp del]

definition getAvailability ::
  "backend \<Rightarrow> instant \<Rightarrow> store \<Rightarrow> string \<Rightarrow> instant \<Rightarrow> error + availability_response" where
  "getAvailability be now st service date =
     (case SERVICES service of
        None \<Rightarrow> Inr BadParams
      | Some svc \<Rightarrow>
          (case businessWindowOn date of
             None \<Rightarrow> Inr (Slots [])
           | Some win \<Rightarrow>
               (case availabilityLoop be now st service (duration svc) (w_close win)
                       (w_open win) [] of
                  Inl e \<Rightarrow> Inl e
                | Inr out \<Rightarrow> Inr (Slots out))))"

section \<open>Soft holds\<close>

datatype hold_result = HoldOk nat | HoldRejected string

definition placeHoldSingle ::
  "backend \<Rightarrow> instant \<Rightarrow> store \<Rightarrow> string \<Rightarrow> instant \<Rightarrow> string option \<Rightarrow> int
     \<Rightarrow> error + hold_result \<times> store" where
  "placeHoldSingle be now st service startISO email unitAmt =
     (let start = startISO in
      case intervalWithBuffer service start of
        Inl e \<Rightarrow> Inl e
      | Inr iv \<Rightarrow>
          (case withinHours be service startISO of
             Inl e \<Rightarrow> Inl e
           | Inr inHours \<Rightarrow>
               if \<not> inHours then Inr (HoldRejected ''outside business hours'', st)
               else if \<not> sameDayCutoffOK be startISO now
               then Inr (HoldRejected ''past cutoff for today'', st)
               else if overlaps be now st service start (i_endWB iv)
               then Inr (HoldRejected ''slot currently unavailable'', st)
               else
                 (let expAt = addMinutes now HOLD_TTL_MIN;
                      doc = \<lparr>h_id = nextId st, h_type = ''single'', h_groupId = None,
                             h_bundleId = None, h_service = service,
                             h_startISO = formatISO19 start,
                             h_endISO = formatISO19 (i_end iv),
                             h_endISOWB = formatISO19 (i_endWB iv),
                             h_email = orNull email, unitAmount = Some unitAmt,
                             amount = None, expireAt = expAt, h_createdAt = now\<rparr>
                  in Inr (HoldOk (h_id doc),
                          st\<lparr>Holds := Holds st @ [doc], nextId := Suc (nextId st)\<rparr>))))"

record selection =
  sel_service :: string
  sel_startISO :: instant

text \<open>
  The validating \<open>for\<close> loop of \<open>placeHoldBundle\<close>: the first rejection ends it;
  \<open>None\<close> means that every selection passed.
\<close>

fun validateSelections ::
  "backend \<Rightarrow> instant \<Rightarrow> store \<Rightarrow> selection list \<Rightarrow> error + string option" where
  "validateSelections be now st [] = Inr None"
| "validateSelections be now st (sel # sels) =
     (case withinHours be (sel_service sel) (sel_startISO sel) of
        Inl e \<Rightarrow> Inl e
      | Inr inHours \<Rightarrow>
          if \<not> inHours then Inr (Some ''outside hours'')
          else if \<not> sameDayCutoffOK be (sel_startISO sel) now then Inr (Some ''past cutoff'')
          else
            (case intervalWithBuffer (sel_service sel) (sel_startISO sel) of
               Inl e \<Rightarrow> Inl e
             | Inr iv \<Rightarrow>
                 if overlaps be now st (sel_service sel) (sel_startISO sel) (i_endWB iv)
                 then Inr (Some ''one or more slots unavailable'')
                 else validateSelections be now st sels))"

text \<open>\<open>Array.map\<close> with a callback that may throw: the first exception wins.\<close>

fun collect :: "(error + 'a) list \<Rightarrow> error + 'a list" where
  "collect [] = Inr []"
| "collect (x # xs) =
     (case x of
        Inl e \<Rightarrow> Inl e
      | Inr v \<Rightarrow> (case collect xs of Inl e \<Rightarrow> Inl e | Inr vs \<Rightarrow> Inr (v # vs)))"

definition bundleDoc ::
  "instant \<Rightarrow> nat \<Rightarrow> string \<Rightarrow> string option \<Rightarrow> int \<Rightarrow> instant \<Rightarrow> nat \<times> selection
     \<Rightarrow> error + hold" where
  "bundleDoc now groupId bundleId email amt expAt p =
     (let sel = snd p; start = sel_startISO sel in
      case intervalWithBuffer (sel_service sel) start of
        Inl e \<Rightarrow> Inl e
      | Inr iv \<Rightarrow>
          Inr \<lparr>h_id = fst p, h_type = ''bundle'', h_groupId = Some groupId,
               h_bundleId = Some bundleId, h_service = sel_service sel,
               h_startISO = formatISO19 start,
               h_endISO = formatISO19 (i_end iv),
               h_endISOWB = formatISO19 (i_endWB iv),
               h_email = orNull email, unitAmount = None, amount = Some amt,
               expireAt = expAt, h_createdAt = now\<rparr>)"

definition placeHoldBundle ::
  "backend \<Rightarrow> instant \<Rightarrow> store \<Rightarrow> string \<Rightarrow> selection list \<Rightarrow> string option \<Rightarrow> int
     \<Rightarrow> error + hold_result \<times> store" where
  "placeHoldBundle be now st bundleId selections email amt =
     (case validateSelections be now st selections of
        Inl e \<Rightarrow> Inl e
      | Inr (Some err) \<Rightarrow> Inr (HoldRejected err, st)
      | Inr None \<Rightarrow>
          (let groupId = nextId st;
               expAt = addMinutes now HOLD_TTL_MIN;
               ids = [Suc groupId ..< Suc groupId + length selections]
           in case collect (map (bundleDoc now groupId bundleId email amt expAt)
                              (zip ids selections)) of
                Inl e \<Rightarrow> Inl e
              | Inr docs \<Rightarrow>
                  Inr (HoldOk groupId,
                       st\<lparr>Holds := Holds st @ docs,
                          nextId := Suc groupId + length selections\<rparr>)))"

section \<open>Checkout\<close>

text \<open>
  What the payment session carries back to \<open>/api/confirm\<close>: its \<open>metadata\<close>.  The
  session itself is the payment gateway's.
\<close>

datatype meta =
    MetaSingle string instant nat
  | MetaBundle string nat
  | MetaOther

datatype checkout_response =
    BadRequest string
  | HoldConflict string
  | SessionCreated meta int

definition checkoutSingle ::
  "backend \<Rightarrow> instant \<Rightarrow> store \<Rightarrow> string option \<Rightarrow> string \<Rightarrow> instant
     \<Rightarrow> error + checkout_response \<times> store" where
  "checkoutSingle be now st cookie service startISO =
     (let email = cookie;
          usr = (case orNull email of None \<Rightarrow> None | Some e \<Rightarrow> findUser st e)
      in case SERVICES service of
           None \<Rightarrow> Inr (BadRequest ''missing service/startISO'', st)
         | Some svc \<Rightarrow>
             (case userPriceFor service usr of
                Inl e \<Rightarrow> Inl e
              | Inr p \<Rightarrow>
                  (let unitAmt = p * 100 in
                   case placeHoldSingle be now st service startISO email unitAmt of
                     Inl e \<Rightarrow> Inl e
                   | Inr (HoldRejected err, st') \<Rightarrow> Inr (HoldConflict err, st')
                   | Inr (HoldOk holdId, st') \<Rightarrow>
                       Inr (SessionCreated (MetaSingle service startISO holdId) unitAmt, st'))))"

definition checkoutBundle ::
  "backend \<Rightarrow> instant \<Rightarrow> store \<Rightarrow> string option \<Rightarrow> string \<Rightarrow> selection list
     \<Rightarrow> error + checkout_response \<times> store" where
  "checkoutBundle be now st cookie bundleId selections =
     (let email = cookie in
      case find (\<lambda>b. bundle_id b = bundleId) BUNDLES of
        None \<Rightarrow> Inr (BadRequest ''invalid bundleId'', st)
      | Some bundle \<Rightarrow>
          if length selections \<noteq> length (services bundle)
          then Inr (BadRequest ''selections must match bundle services'', st)
          else
            (case placeHoldBundle be now st bundleId selections email
                    (bundle_price bundle * 100) of
               Inl e \<Rightarrow> Inl e
             | Inr (HoldRejected err, st') \<Rightarrow> Inr (HoldConflict err, st')
             | Inr (HoldOk groupId, st') \<Rightarrow>
                 Inr (SessionCreated (MetaBundle bundleId groupId)
                        (bundle_price bundle * 100), st')))"

section \<open>Confirmation\<close>

record session =
  sid :: string
  paid :: bool
  metadata :: meta

text \<open>
  The replies of \<open>/api/confirm\<close>: 402 payment not completed; 409 hold expired
  (single); 409 bundle holds expired; 400 bad metadata; 500 confirm failed (an exception
  caught by the handler's \<open>try\<close>); and the two successes.
\<close>

datatype confirm_response =
    PaymentNotCompleted
  | HoldExpired
  | BundleHoldsExpired
  | BadMetadata
  | ConfirmFailed
  | ConfirmedSingle
  | ConfirmedBundle string

text \<open>\<open>Holds.find({ groupId })\<close>; the Prisma wrapper orders by \<open>startISO\<close>.\<close>

definition findGroup :: "backend \<Rightarrow> nat \<Rightarrow> hold list \<Rightarrow> hold list" where
  "findGroup be groupId hs =
     (let found = filter (\<lambda>h. h_groupId h = Some groupId) hs
      in case be of Mongo \<Rightarrow> found | PrismaAt utcOffset \<Rightarrow> sort_key h_startISO found)"

definition bundleBooking ::
  "instant \<Rightarrow> nat \<Rightarrow> string option \<Rightarrow> string \<Rightarrow> nat \<times> hold \<Rightarrow> error + booking" where
  "bundleBooking now groupId email sessionId p =
     (let h = snd p; start = h_startISO h in
      case intervalWithBuffer (h_service h) start of
        Inl e \<Rightarrow> Inl e
      | Inr iv \<Rightarrow>
          Inr \<lparr>b_id = fst p, b_groupId = Some groupId, b_service = h_service h,
               b_startISO = formatISO19 start, b_endISO = formatISO19 (i_end iv),
               clientEmail = email, paidSessionId = sessionId, b_createdAt = now\<rparr>)"

text \<open>
  The lookup of the hold in \<open>/api/confirm\<close>.  The Mongo handler asks once,
  \<open>Holds.findOne({ _id: holdId })\<close>.  The Prisma handler asks
  \<open>Holds.findOne({ id: holdId }) || Holds.findOne({ _id: holdId })\<close>: when the first
  finds nothing the second is evaluated, and Prisma Client throws on it, since no field
  of a Prisma model can be named \<open>_id\<close>.
\<close>

definition findHoldById :: "backend \<Rightarrow> nat \<Rightarrow> hold list \<Rightarrow> error + hold option" where
  "findHoldById be holdId hs =
     (case be of
        Mongo \<Rightarrow> Inr (find (\<lambda>h. h_id h = holdId) hs)
      | PrismaAt utcOffset \<Rightarrow>
          (case find (\<lambda>h. h_id h = holdId) hs of
             Some hold \<Rightarrow> Inr (Some hold)
           | None \<Rightarrow> Inl PrismaClientValidationError))"

definition confirmSingle ::
  "backend \<Rightarrow> instant \<Rightarrow> store \<Rightarrow> string option \<Rightarrow> string \<Rightarrow> string \<Rightarrow> instant \<Rightarrow> nat
     \<Rightarrow> confirm_response \<times> store" where
  "confirmSingle be now st emailCookie sessionId service startISO holdId =
     (case findHoldById be holdId (Holds st) of
        Inl e \<Rightarrow> (ConfirmFailed, st)
      | Inr None \<Rightarrow> (HoldExpired, st)
      | Inr (Some hold) \<Rightarrow>
          (let start = startISO in
           case intervalWithBuffer service start of
             Inl e \<Rightarrow> (ConfirmFailed, st)
           | Inr iv \<Rightarrow>
               (let email = (case orNull (h_email hold) of
                               None \<Rightarrow> emailCookie | Some e \<Rightarrow> Some e);
                    users' =
                      (if service = ''hbot'' then
                         (case orNull email of
                            None \<Rightarrow> Users st
                          | Some e \<Rightarrow>
                              (case findUser st e of
                                 None \<Rightarrow> Users st
                               | Some usr \<Rightarrow>
                                   if 0 < hbotCredits usr \<and> unitAmount hold = Some 6000
                                   then incCredits e (- 1) (Users st)
                                   else Users st))
                       else Users st);
                    bk = \<lparr>b_id = nextId st, b_groupId = None, b_service = service,
                          b_startISO = formatISO19 start,
                          b_endISO = formatISO19 (i_end iv),
                          clientEmail = orNull email, paidSessionId = sessionId,
                          b_createdAt = now\<rparr>
                in (ConfirmedSingle,
                    st\<lparr>Users := users', Bookings := Bookings st @ [bk],
                       Holds := deleteOne holdId (Holds st),
                       nextId := Suc (nextId st)\<rparr>))))"

definition confirmBundle ::
  "backend \<Rightarrow> instant \<Rightarrow> store \<Rightarrow> string option \<Rightarrow> string \<Rightarrow> string \<Rightarrow> nat
     \<Rightarrow> confirm_response \<times> store" where
  "confirmBundle be now st emailCookie sessionId bundleId groupId =
     (case findGroup be groupId (Holds st) of
        [] \<Rightarrow> (BundleHoldsExpired, st)
      | h0 # rest \<Rightarrow>
          (let holds = h0 # rest;
               email = (case orNull (h_email h0) of
                          None \<Rightarrow> emailCookie | Some e \<Rightarrow> Some e);
               ids = [nextId st ..< nextId st + length holds]
           in case collect (map (bundleBooking now groupId email sessionId)
                              (zip ids holds)) of
                Inl e \<Rightarrow> (ConfirmFailed, st)
              | Inr batch \<Rightarrow>
                  (ConfirmedBundle bundleId,
                   st\<lparr>Bookings := Bookings st @ batch,
                      Holds := filter (\<lambda>h. h_groupId h \<noteq> Some groupId) (Holds st),
                      nextId := nextId st + length holds\<rparr>)))"

text \<open>
  \<open>/api/confirm\<close>, given what the payment gateway returned for the session id and the
  caller's cookie.
\<close>

definition confirm ::
  "backend \<Rightarrow> instant \<Rightarrow> store \<Rightarrow> string option \<Rightarrow> session option
     \<Rightarrow> confirm_response \<times> store" where
  "confirm be now st cookie sess =
     (let emailCookie = orNull cookie in
      case sess of
        None \<Rightarrow> (PaymentNotCompleted, st)
      | Some s \<Rightarrow>
          if \<not> paid s then (PaymentNotCompleted, st)
          else
            (case metadata s of
               MetaSingle service startISO holdId \<Rightarrow>
                 confirmSingle be now st emailCookie (sid s) service startISO holdId
             | MetaBundle bundleId groupId \<Rightarrow>
                 confirmBundle be now st emailCookie (sid s) bundleId groupId
             | MetaOther \<Rightarrow> (BadMetadata, st)))"

section \<open>Requests in sequence\<close>

text \<open>
  The requests that change the store, and the background expiry pass.  A request whose
  handler throws leaves the store as it was.
\<close>

datatype request =
    CheckoutSingle "string option" string instant
  | CheckoutBundle "string option" string "selection list"
  | Confirm "string option" "session option"
  | Sweep

fun handle :: "backend \<Rightarrow> instant \<Rightarrow> request \<Rightarrow> store \<Rightarrow> store" where
  "handle be now (CheckoutSingle cookie service startISO) st =
     (case checkoutSingle be now st cookie service startISO of
        Inl e \<Rightarrow> st
      | Inr (r, st') \<Rightarrow> st')"
| "handle be now (CheckoutBundle cookie bundleId selections) st =
     (case checkoutBundle be now st cookie bundleId selections of
        Inl e \<Rightarrow> st
      | Inr (r, st') \<Rightarrow> st')"
| "handle be now (Confirm cookie sess) st = snd (confirm be now st cookie sess)"
| "handle be now Sweep st =
     (case be of Mongo \<Rightarrow> sweepExpired now st | PrismaAt utcOffset \<Rightarrow> st)"

text \<open>Each request with the clock reading at which it is served.\<close>

fun run :: "backend \<Rightarrow> (instant \<times> request) list \<Rightarrow> store \<Rightarrow> store" where
  "run be [] st = st"
| "run be ((now, rq) # rest) st = run be rest (handle be now rq st)"

section \<open>Request sequences used below\<close>

text \<open>
  Times are local: 1736100000000 is 2025-01-05 18:00, 1736146800000 is Monday
  2025-01-06 07:00, and a quarter of an hour is 900000.

  A sauna hold is placed for Monday 07:00; thirteen minutes later, after its twelve
  minutes have run out and before any expiry pass, a second hold is placed for the same
  slot; then both payments arrive and both sessions are confirmed.
\<close>

definition lateConfirmation :: "(instant \<times> request) list" where
  "lateConfirmation =
     [(1736100000000, CheckoutSingle None ''sauna'' 1736146800000),
      (1736100780000, CheckoutSingle None ''sauna'' 1736146800000),
      (1736100800000, Confirm None (Some \<lparr>sid = ''cs_a'', paid = True,
          metadata = MetaSingle ''sauna'' 1736146800000 0\<rparr>)),
      (1736100810000, Confirm None (Some \<lparr>sid = ''cs_b'', paid = True,
          metadata = MetaSingle ''sauna'' 1736146800000 1\<rparr>))]"

text \<open>
  A two-service bundle is checked out with the sauna at Monday 07:00 given twice, and
  confirmed a minute later.
\<close>

definition duplicateBundle :: "(instant \<times> request) list" where
  "duplicateBundle =
     [(1736100000000, CheckoutBundle None ''bundle_alt_cold_sauna''
         [\<lparr>sel_service = ''sauna'', sel_startISO = 1736146800000\<rparr>,
          \<lparr>sel_service = ''sauna'', sel_startISO = 1736146800000\<rparr>]),
      (1736100060000, Confirm None (Some \<lparr>sid = ''cs_c'', paid = True,
          metadata = MetaBundle ''bundle_alt_cold_sauna'' 0\<rparr>))]"

text \<open>
  The hyperbaric session of Monday 07:00 to 08:00 is held and confirmed; with its
  30-minute buffer it occupies the room until 08:30.
\<close>

definition hbotBooked :: "(instant \<times> request) list" where
  "hbotBooked =
     [(1736100000000, CheckoutSingle None ''hbot'' 1736146800000),
      (1736100060000, Confirm None (Some \<lparr>sid = ''cs_h'', paid = True,
          metadata = MetaSingle ''hbot'' 1736146800000 0\<rparr>))]"

text \<open>
  Ann has one credit.  She checks out the hyperbaric session of Monday 07:00 and, a
  minute later, the one of 09:00 (1736154000000); both sessions are paid and confirmed,
  the first hold's first.
\<close>

definition annOneCredit :: store where
  "annOneCredit =
     \<lparr>Users = [\<lparr>u_email = ''ann@example.org'', u_name = ''Ann'', hbotCredits = 1\<rparr>],
      Bookings = [], Holds = [], nextId = 0\<rparr>"

definition twoDiscountedHolds :: "(instant \<times> request) list" where
  "twoDiscountedHolds =
     [(1736100000000, CheckoutSingle (Some ''ann@example.org'') ''hbot'' 1736146800000),
      (1736100060000, CheckoutSingle (Some ''ann@example.org'') ''hbot'' 1736154000000),
      (1736100120000, Confirm (Some ''ann@example.org'') (Some \<lparr>sid = ''cs_1'', paid = True,
          metadata = MetaSingle ''hbot'' 1736146800000 0\<rparr>)),
      (1736100180000, Confirm (Some ''ann@example.org'') (Some \<lparr>sid = ''cs_2'', paid = True,
          metadata = MetaSingle ''hbot'' 1736154000000 1\<rparr>))]"

section \<open>The properties, in the words of the specification\<close>

text \<open>
  The servers on which the date-only text of a day is read as an instant of that same
  local day: the Mongo server, which never reads one, and the Prisma server in a process
  at UTC or east of it.
\<close>

definition sameDayZone :: "backend \<Rightarrow> bool" where
  "sameDayZone be =
     (case be of Mongo \<Rightarrow> True | PrismaAt utcOffset \<Rightarrow> 0 \<le> utcOffset \<and> utcOffset < 1440)"

text \<open>
  Section 4.2 of the specification: the candidate's interval \<open>[start, endWithBuffer]\<close>
  overlaps, end points included, the buffered interval of a booking of the service or of
  a live hold of the service.
\<close>

definition bufferedConflict ::
  "instant \<Rightarrow> store \<Rightarrow> string \<Rightarrow> instant \<Rightarrow> instant \<Rightarrow> bool" where
  "bufferedConflict now st serviceKey start endWB =
     (list_ex (\<lambda>b. b_service b = serviceKey
                   \<and> start \<le> addMinutes (b_endISO b) (bufferOf (b_service b))
                   \<and> b_startISO b \<le> endWB) (Bookings st)
      \<or> list_ex (\<lambda>h. h_service h = serviceKey \<and> now < expireAt h
                     \<and> start \<le> h_endISOWB h \<and> h_startISO h \<le> endWB) (Holds st))"

text \<open>Stored intervals that run forwards: the start is not after the buffered end.\<close>

definition forwardIntervals :: "store \<Rightarrow> bool" where
  "forwardIntervals st =
     (list_all (\<lambda>b. b_startISO b \<le> addMinutes (b_endISO b) (bufferOf (b_service b)))
        (Bookings st)
      \<and> list_all (\<lambda>h. h_startISO h \<le> h_endISOWB h) (Holds st))"

text \<open>
  Section 3, the invariant of bookings: no two bookings of one service have overlapping
  start/end-with-buffer intervals.  Here two intervals overlap when they share more than
  an end point.
\<close>

definition bookingsOverlap :: "booking \<Rightarrow> booking \<Rightarrow> bool" where
  "bookingsOverlap b c =
     (b_service b = b_service c
      \<and> b_startISO b < addMinutes (b_endISO c) (bufferOf (b_service c))
      \<and> b_startISO c < addMinutes (b_endISO b) (bufferOf (b_service b)))"

fun pairwiseFree :: "booking list \<Rightarrow> bool" where
  "pairwiseFree [] = True"
| "pairwiseFree (b # bs) = (\<not> list_ex (bookingsOverlap b) bs \<and> pairwiseFree bs)"

definition noDoubleBooking :: "store \<Rightarrow> bool" where
  "noDoubleBooking st = pairwiseFree (Bookings st)"

text \<open>
  Section 4.4: a selection passes when it is within hours, past the cutoff and free of
  conflicts, each judged against the store as it is when the bundle is placed.
\<close>

definition selectionPasses :: "backend \<Rightarrow> instant \<Rightarrow> store \<Rightarrow> selection \<Rightarrow> bool" where
  "selectionPasses be now st sel =
     (withinHours be (sel_service sel) (sel_startISO sel) = Inr True
      \<and> sameDayCutoffOK be (sel_startISO sel) now
      \<and> (case intervalWithBuffer (sel_service sel) (sel_startISO sel) of
            Inl e \<Rightarrow> False
          | Inr iv \<Rightarrow> \<not> overlaps be now st (sel_service sel) (sel_startISO sel) (i_endWB iv)))"

text \<open>
  Section 4.3: the cursor positions from \<open>open\<close> in steps of \<open>SLOT\<close> minutes for which
  the cursor plus the duration is not after \<open>close\<close>.
\<close>

definition slotGrid :: "instant \<Rightarrow> instant \<Rightarrow> int \<Rightarrow> instant list" where
  "slotGrid opn cls dur =
     (if addMinutes opn dur \<le> cls
      then map (\<lambda>k. addMinutes opn (SLOT * int k))
             [0 ..< Suc (nat ((cls - addMinutes opn dur) div (SLOT * 60000)))]
      else [])"

text \<open>
  Identifiers are unique within the holds collection (the collection's key), and the
  source of fresh identifiers has not yet issued any that is in use.
\<close>

definition uniqueIds :: "store \<Rightarrow> bool" where
  "uniqueIds st =
     (distinct (map h_id (Holds st))
      \<and> list_all (\<lambda>h. h_id h < nextId st) (Holds st)
      \<and> list_all (\<lambda>h. case h_groupId h of None \<Rightarrow> True | Some g \<Rightarrow> g < nextId st) (Holds st))"

section \<open>Calendar lemmas\<close>

lemma SERVICES_duration_pos: "SERVICES k = Some svc \<Longrightarrow> 0 < duration svc"
  by (auto simp: SERVICES_def split: if_splits)

lemma startOfDay_idem: "startOfDay (startOfDay d) = startOfDay d"
  by (simp add: startOfDay_def)

lemma weekdayKey_startOfDay: "weekdayKey (startOfDay d) = weekdayKey d"
proof -
  have "(d - d mod 86400000) div 86400000 = d div 86400000"
    by (simp add: minus_mod_eq_mult_div)
  then show ?thesis by (simp add: weekdayKey_def startOfDay_def)
qed

lemma businessWindowOn_startOfDay: "businessWindowOn (startOfDay d) = businessWindowOn d"
  by (simp add: businessWindowOn_def weekdayKey_startOfDay toDay_def startOfDay_idem
      split: option.splits)

lemma startOfDay_add:
  assumes "0 \<le> n" "n < 86400000"
  shows "startOfDay (startOfDay d + n) = startOfDay d"
proof -
  have "startOfDay d = 86400000 * (d div 86400000)"
    by (simp add: startOfDay_def minus_mod_eq_mult_div)
  moreover have "(86400000 * (d div 86400000) + n) mod 86400000 = n"
    using assms by simp
  ultimately show ?thesis by (simp add: startOfDay_def)
qed

lemma weekdayKey_add:
  assumes "0 \<le> n" "n < 86400000"
  shows "weekdayKey (startOfDay d + n) = weekdayKey d"
proof -
  have "weekdayKey (startOfDay (startOfDay d + n)) = weekdayKey (startOfDay d)"
    using assms by (simp add: startOfDay_add)
  then show ?thesis by (simp add: weekdayKey_startOfDay)
qed

lemma businessWindowOn_same_day:
  assumes "0 \<le> n" "n < 86400000"
  shows "businessWindowOn (startOfDay d + n) = businessWindowOn d"
  using assms
  by (simp add: businessWindowOn_def weekdayKey_add toDay_def startOfDay_add
      split: option.splits)

lemma businessWindowOn_dateOnly:
  assumes "0 \<le> utcOffset" "utcOffset < 1440"
  shows "businessWindowOn (dateOnlyToDate utcOffset d) = businessWindowOn d"
  using assms by (simp add: dateOnlyToDate_def addMinutes_def businessWindowOn_same_day)

lemma withinHours_known:
  assumes "SERVICES serviceKey = Some svc" and "sameDayZone be"
  shows "withinHours be serviceKey startISO =
     Inr (case businessWindowOn startISO of
            None \<Rightarrow> False
          | Some win \<Rightarrow> w_open win \<le> startISO
                        \<and> addMinutes startISO (duration svc) \<le> w_close win)"
proof -
  from assms(1) have pos: "0 < duration svc" by (rule SERVICES_duration_pos)
  show ?thesis
  proof (cases be)
    case Mongo
    then show ?thesis using assms(1)
      by (auto simp: withinHours_def withinHoursMongo_def intervalWithBuffer_def isBefore_def
          isAfter_def Let_def split: option.splits)
  next
    case (PrismaAt utcOffset)
    with assms(2) have "businessWindowOn (dateOnlyToDate utcOffset startISO)
        = businessWindowOn startISO"
      by (simp add: sameDayZone_def businessWindowOn_dateOnly)
    with PrismaAt show ?thesis using assms(1) pos
      by (auto simp: withinHours_def withinHoursPrisma_def intervalWithBuffer_def
          isAfter_def Let_def addMinutes_def split: option.splits)
  qed
qed

lemma withinHours_total:
  assumes "SERVICES serviceKey = Some svc"
  shows "\<exists>fits. withinHours be serviceKey startISO = Inr fits"
  using assms
  by (cases be)
     (auto simp: withinHours_def withinHoursMongo_def withinHoursPrisma_def
       intervalWithBuffer_def Let_def split: option.splits)

lemma WEEKLY_HOURS_close_bound:
  assumes "WEEKLY_HOURS k = Some cfg"
  shows "fst (close_hhmm cfg) * 3600000 + snd (close_hhmm cfg) * 60000 < 86400000"
  using assms by (auto simp: WEEKLY_HOURS_def split: if_splits)

text \<open>
  West of UTC the Prisma variant takes the window of the day before, which closes before
  the day of the start begins: it answers no for every start.
\<close>

lemma withinHoursPrisma_west_of_UTC:
  assumes "SERVICES serviceKey = Some svc" and "- 1440 < utcOffset" and "utcOffset < 0"
  shows "withinHours (PrismaAt utcOffset) serviceKey startISO = Inr False"
proof -
  define x where "x = dateOnlyToDate utcOffset startISO"
  have x: "x = startOfDay (startISO - 86400000) + (86400000 + utcOffset * 60000)"
  proof -
    have "startOfDay (startISO - 86400000) = startOfDay startISO - 86400000"
      by (simp add: startOfDay_def mod_diff_right_eq [symmetric] del: mod_diff_right_eq)
    then show ?thesis by (simp add: x_def dateOnlyToDate_def addMinutes_def)
  qed
  have sx: "startOfDay x = startOfDay startISO - 86400000"
  proof -
    have "startOfDay x = startOfDay (startISO - 86400000)"
      unfolding x using assms(2,3) by (intro startOfDay_add) simp_all
    also have "\<dots> = startOfDay startISO - 86400000"
      by (simp add: startOfDay_def mod_diff_right_eq [symmetric] del: mod_diff_right_eq)
    finally show ?thesis .
  qed
  have late: "w_close win < startISO" if "businessWindowOn x = Some win" for win
  proof -
    from that obtain cfg where cfg: "WEEKLY_HOURS (weekdayKey x) = Some cfg"
      and win: "w_close win = toDay x (close_hhmm cfg)"
      by (auto simp: businessWindowOn_def split: option.splits)
    have "w_close win < startOfDay startISO"
      using WEEKLY_HOURS_close_bound[OF cfg] by (simp add: win toDay_def sx)
    moreover have "startOfDay startISO \<le> startISO"
      by (simp add: startOfDay_def)
    ultimately show ?thesis by simp
  qed
  show ?thesis
    using assms(1) late
    by (auto simp: withinHours_def withinHoursPrisma_def x_def [symmetric]
        intervalWithBuffer_def isAfter_def Let_def split: option.splits)
qed

lemma formatISO19_startOfDay_add:
  assumes "n mod 1000 = 0"
  shows "formatISO19 (startOfDay d + n) = startOfDay d + n"
proof -
  have "startOfDay d = 1000 * (86400 * (d div 86400000))"
    by (simp add: startOfDay_def minus_mod_eq_mult_div)
  then have "(startOfDay d + n) mod 1000 = 0"
    using assms by (metis mod_mult_self4 mult.commute)
  then show ?thesis by (simp add: formatISO19_def)
qed

lemma tuesday_hbot_hold:
  assumes "weekdayKey d = 2" and "sameDayZone be"
  shows "placeHoldSingle be now emptyStore ''hbot'' (toDay d (11, 0)) email amt =
     Inr (HoldOk 0,
          \<lparr>Users = [], Bookings = [],
           Holds = [\<lparr>h_id = 0, h_type = ''single'', h_groupId = None, h_bundleId = None,
                     h_service = ''hbot'', h_startISO = toDay d (11, 0),
                     h_endISO = toDay d (12, 0), h_endISOWB = toDay d (12, 30),
                     h_email = orNull email, unitAmount = Some amt, amount = None,
                     expireAt = addMinutes now 12, h_createdAt = now\<rparr>],
           nextId = 1\<rparr>)"
proof -
  let ?t = "toDay d (11, 0)"
  have t: "?t = startOfDay d + 39600000" by (simp add: toDay_def)
  have wk: "weekdayKey ?t = 2" using assms by (simp add: t weekdayKey_add)
  have sd: "startOfDay ?t = startOfDay d"
    unfolding t by (rule startOfDay_add) simp_all
  have win: "businessWindowOn ?t = Some \<lparr>w_open = toDay d (7, 0), w_close = toDay d (12, 0)\<rparr>"
    by (simp add: businessWindowOn_def wk WEEKLY_HOURS_def) (simp add: toDay_def startOfDay_add)
  have iv: "intervalWithBuffer ''hbot'' ?t =
      Inr \<lparr>i_start = ?t, i_end = toDay d (12, 0), i_endWB = toDay d (12, 30)\<rparr>"
    by (simp add: intervalWithBuffer_def SERVICES_def bufferOf_def BUFFERS_def addMinutes_def
        toDay_def)
  have "SERVICES ''hbot'' =
      Some \<lparr>svc_name = ''Mild Hyperbaric Oxygen Therapy'', duration = 60, price = 75\<rparr>"
    by (simp add: SERVICES_def)
  from withinHours_known[OF this assms(2), of ?t]
  have wh: "withinHours be ''hbot'' ?t = Inr True"
    by (simp add: win) (simp add: toDay_def addMinutes_def)
  have cut: "sameDayCutoffOK be ?t now"
    by (cases be)
      (simp_all add: sameDayCutoffOK_def sameDayCutoffOKMongo_def sameDayCutoffOKPrisma_def
        SAME_DAY_CUTOFF_MIN_def)
  have ov: "\<not> overlaps be now emptyStore ''hbot'' ?t (toDay d (12, 30))"
    by (cases be) (simp_all add: overlaps_def overlapsMongo_def overlapsPrisma_def emptyStore_def)
  have f1: "formatISO19 ?t = ?t" "formatISO19 (toDay d (12, 0)) = toDay d (12, 0)"
    "formatISO19 (toDay d (12, 30)) = toDay d (12, 30)"
    by (simp_all add: toDay_def formatISO19_startOfDay_add add.assoc)
  show ?thesis
    by (simp add: placeHoldSingle_def Let_def iv wh cut ov f1 HOLD_TTL_MIN_def)
      (simp add: emptyStore_def)
qed

section \<open>Conflict check lemmas\<close>

lemma areIntervalsOverlapping_forward:
  assumes "a \<le> b" "c \<le> d"
  shows "areIntervalsOverlapping (a, b) (c, d) True = (a \<le> d \<and> c \<le> b)"
  using assms by (simp add: areIntervalsOverlapping_def)

lemma overlapsMongo_bufferedConflict:
  assumes "start \<le> endWB" "forwardIntervals st"
  shows "overlapsMongo now st serviceKey start endWB = bufferedConflict now st serviceKey start endWB"
proof -
  have b: "list_ex (\<lambda>b. areIntervalsOverlapping (start, endWB)
              (b_startISO b, addMinutes (b_endISO b) (bufferOf (b_service b))) True)
            (filter (\<lambda>b. b_service b = serviceKey) (Bookings st))
        = list_ex (\<lambda>b. b_service b = serviceKey
                   \<and> start \<le> addMinutes (b_endISO b) (bufferOf (b_service b))
                   \<and> b_startISO b \<le> endWB) (Bookings st)"
    using assms
    by (auto simp: list_ex_iff list_all_iff forwardIntervals_def areIntervalsOverlapping_forward)
  have h: "list_ex (\<lambda>h. areIntervalsOverlapping (start, endWB) (h_startISO h, h_endISOWB h) True)
            (filter (\<lambda>h. h_service h = serviceKey \<and> now < expireAt h) (Holds st))
        = list_ex (\<lambda>h. h_service h = serviceKey \<and> now < expireAt h
                     \<and> start \<le> h_endISOWB h \<and> h_startISO h \<le> endWB) (Holds st)"
    using assms
    by (auto simp: list_ex_iff list_all_iff forwardIntervals_def areIntervalsOverlapping_forward)
  show ?thesis
    unfolding overlapsMongo_def bufferedConflict_def Let_def b h by auto
qed

lemma overlapsPrisma_imp_bufferedConflict:
  assumes "overlapsPrisma now st serviceKey start endWB"
  shows "bufferedConflict now st serviceKey start endWB"
proof -
  have buf: "0 \<le> bufferOf k" for k
    by (simp add: bufferOf_def BUFFERS_def)
  from assms consider
    b where "b \<in> set (Bookings st)" "b_service b = serviceKey" "b_startISO b < endWB"
      "start < b_endISO b"
  | h where "h \<in> set (Holds st)" "h_service h = serviceKey" "h_startISO h < endWB"
      "start < h_endISOWB h" "now < expireAt h"
    by (auto simp: overlapsPrisma_def Let_def filter_empty_conv)
  then show ?thesis
  proof cases
    case 1
    have "b_endISO b \<le> addMinutes (b_endISO b) (bufferOf (b_service b))"
      using buf[of "b_service b"] by (simp add: addMinutes_def)
    with 1 show ?thesis
      by (auto simp: bufferedConflict_def list_ex_iff intro!: bexI[of _ b])
  next
    case 2
    then show ?thesis
      by (auto simp: bufferedConflict_def list_ex_iff intro!: bexI[of _ h])
  qed
qed

section \<open>Availability lemmas\<close>

lemma slotGrid_done: "\<not> addMinutes c dur \<le> cls \<Longrightarrow> slotGrid c cls dur = []"
  by (simp add: slotGrid_def)

lemma slotGrid_step:
  assumes "addMinutes c dur \<le> cls"
  shows "slotGrid c cls dur = c # slotGrid (addMinutes c SLOT) cls dur"
proof -
  define D where "D = cls - addMinutes c dur"
  have D0: "0 \<le> D" using assms by (simp add: D_def)
  have next_D: "cls - addMinutes (addMinutes c SLOT) dur = D - 900000"
    by (simp add: D_def addMinutes_def SLOT_def)
  have S: "SLOT * 60000 = 900000" by (simp add: SLOT_def)
  have f0: "addMinutes c (SLOT * int 0) = c" by (simp add: addMinutes_def)
  have fS: "addMinutes c (SLOT * int (Suc k)) = addMinutes (addMinutes c SLOT) (SLOT * int k)" for k
    by (simp add: addMinutes_def algebra_simps)
  have lhs: "slotGrid c cls dur =
      c # map (\<lambda>k. addMinutes (addMinutes c SLOT) (SLOT * int k)) [0 ..< nat (D div 900000)]"
    using assms
    by (simp add: slotGrid_def D_def[symmetric] SLOT_def upt_conv_Cons map_Suc_upt[symmetric] f0 del: upt_Suc)
       (simp add: addMinutes_def algebra_simps)
  show ?thesis
  proof (cases "900000 \<le> D")
    case True
    then have "Suc (nat ((D - 900000) div 900000)) = nat (D div 900000)"
      by (simp add: div_diff nat_diff_distrib' Suc_nat_eq_nat_zadd1 flip: zdiv_zminus1_eq_if) 
    moreover have "addMinutes (addMinutes c SLOT) dur \<le> cls"
      using True next_D by simp
    ultimately show ?thesis
      unfolding lhs by (simp add: slotGrid_def next_D S del: upt_Suc)
  next
    case False
    then have "D div 900000 = 0" using D0 by simp
    moreover have "\<not> addMinutes (addMinutes c SLOT) dur \<le> cls"
      using False next_D by simp
    ultimately show ?thesis
      unfolding lhs by (simp add: slotGrid_def next_D S del: upt_Suc)
  qed
qed

lemma availabilityLoop_grid:
  assumes "SERVICES service = Some svc"
  shows "availabilityLoop be now st service dur cls cursor out =
     Inr (out @ map (\<lambda>c. \<lparr>s_startISO = formatISO19 c,
                           s_endISO = formatISO19 (addMinutes c (duration svc))\<rparr>)
            (filter (\<lambda>c. \<not> overlaps be now st service c
                         (addMinutes (addMinutes c (duration svc)) (bufferOf service)))
               (slotGrid cursor cls dur)))"
  using assms
proof (induction be now st service dur cls cursor out rule: availabilityLoop.induct)
  case (1 be now st service dur close cursor out)
  have iv: "intervalWithBuffer service cursor =
      Inr \<lparr>i_start = cursor, i_end = addMinutes cursor (duration svc),
           i_endWB = addMinutes (addMinutes cursor (duration svc)) (bufferOf service)\<rparr>"
    using 1(2) by (simp add: intervalWithBuffer_def Let_def)
  show ?case
  proof (cases "addMinutes cursor dur \<le> close")
    case True
    then have go: "\<not> isAfter (addMinutes cursor dur) close" by (simp add: isAfter_def)
    show ?thesis
      using 1(1)[OF go iv 1(2)] True go
      by (subst availabilityLoop.simps) (simp add: iv slotGrid_step)
  next
    case False
    then show ?thesis
      by (subst availabilityLoop.simps) (simp add: isAfter_def slotGrid_done)
  qed
qed

section \<open>Bundle hold lemmas\<close>

lemma withinHours_True_known:
  "withinHours be k t = Inr True \<Longrightarrow> \<exists>iv. intervalWithBuffer k t = Inr iv"
  by (cases be; cases "intervalWithBuffer k t")
     (auto simp: withinHours_def withinHoursMongo_def withinHoursPrisma_def Let_def
       split: option.splits)

lemma validateSelections_passes:
  "validateSelections be now st sels = Inr None \<longleftrightarrow> list_all (selectionPasses be now st) sels"
proof (induction sels)
  case Nil
  show ?case by simp
next
  case (Cons sel sels)
  show ?case
  proof (cases "withinHours be (sel_service sel) (sel_startISO sel)")
    case (Inl e)
    then show ?thesis by (simp add: selectionPasses_def)
  next
    case (Inr inHours)
    show ?thesis
    proof (cases inHours)
      case False
      with Inr show ?thesis by (simp add: selectionPasses_def)
    next
      case True
      with Inr withinHours_True_known[of be "sel_service sel" "sel_startISO sel"]
      obtain iv where iv: "intervalWithBuffer (sel_service sel) (sel_startISO sel) = Inr iv"
        by auto
      from Inr True iv Cons.IH show ?thesis
        by (simp add: selectionPasses_def)
    qed
  qed
qed

lemma validateSelections_known:
  "validateSelections be now st sels = Inr None \<Longrightarrow> sel \<in> set sels
     \<Longrightarrow> \<exists>iv. intervalWithBuffer (sel_service sel) (sel_startISO sel) = Inr iv"
  by (auto simp: validateSelections_passes list_all_iff selectionPasses_def
      intro: withinHours_True_known)

lemma collect_all_Inr:
  "list_all (\<lambda>x. \<exists>v. f x = Inr v) xs \<Longrightarrow> \<exists>vs. collect (map f xs) = Inr vs \<and> length vs = length xs
      \<and> list_all2 (\<lambda>x v. f x = Inr v) xs vs"
  by (induction xs) auto

lemma validateSelections_no_throw:
  "list_all (\<lambda>sel. SERVICES (sel_service sel) \<noteq> None) sels
     \<Longrightarrow> \<exists>r. validateSelections be now st sels = Inr r"
proof (induction sels)
  case Nil
  show ?case by simp
next
  case (Cons sel sels)
  then obtain svc where svc: "SERVICES (sel_service sel) = Some svc"
    by auto
  from Cons obtain r where r: "validateSelections be now st sels = Inr r"
    by auto
  have "\<exists>iv. intervalWithBuffer (sel_service sel) (sel_startISO sel) = Inr iv"
    using svc by (simp add: intervalWithBuffer_def Let_def)
  then show ?case
    using withinHours_total[OF svc, of be "sel_startISO sel"] r by auto
qed

lemma placeHoldBundle_rejects:
  assumes "\<not> list_all (selectionPasses be now st) sels"
  shows "case placeHoldBundle be now st bundleId sels email amt of
           Inl e \<Rightarrow> \<not> list_all (\<lambda>sel. SERVICES (sel_service sel) \<noteq> None) sels
         | Inr (r, st') \<Rightarrow> st' = st \<and> (\<exists>err. r = HoldRejected err)"
proof -
  from assms have v: "validateSelections be now st sels \<noteq> Inr None"
    by (simp add: validateSelections_passes)
  show ?thesis
  proof (cases "validateSelections be now st sels")
    case (Inl e)
    with validateSelections_no_throw[of sels be now st]
    have "\<not> list_all (\<lambda>sel. SERVICES (sel_service sel) \<noteq> None) sels"
      by auto
    with Inl show ?thesis by (simp add: placeHoldBundle_def)
  next
    case (Inr r)
    with v show ?thesis by (cases r) (auto simp: placeHoldBundle_def)
  qed
qed

lemma collect_bundleDoc:
  assumes "list_all (\<lambda>p. \<exists>iv. intervalWithBuffer (sel_service (snd p)) (sel_startISO (snd p))
                            = Inr iv) ps"
  shows "\<exists>docs. collect (map (bundleDoc now g b e a x) ps) = Inr docs
          \<and> map h_id docs = map fst ps
          \<and> map h_service docs = map (\<lambda>p. sel_service (snd p)) ps
          \<and> map h_startISO docs = map (\<lambda>p. formatISO19 (sel_startISO (snd p))) ps
          \<and> list_all (\<lambda>h. h_groupId h = Some g \<and> expireAt h = x) docs"
  using assms
proof (induction ps)
  case Nil
  show ?case by simp
next
  case (Cons p ps)
  from Cons.prems obtain iv where
    iv: "intervalWithBuffer (sel_service (snd p)) (sel_startISO (snd p)) = Inr iv"
    by auto
  from Cons obtain docs where
    docs: "collect (map (bundleDoc now g b e a x) ps) = Inr docs"
      "map h_id docs = map fst ps"
      "map h_service docs = map (\<lambda>p. sel_service (snd p)) ps"
      "map h_startISO docs = map (\<lambda>p. formatISO19 (sel_startISO (snd p))) ps"
      "list_all (\<lambda>h. h_groupId h = Some g \<and> expireAt h = x) docs"
    by auto
  define d where "d = \<lparr>h_id = fst p, h_type = ''bundle'', h_groupId = Some g,
      h_bundleId = Some b, h_service = sel_service (snd p),
      h_startISO = formatISO19 (sel_startISO (snd p)), h_endISO = formatISO19 (i_end iv),
      h_endISOWB = formatISO19 (i_endWB iv), h_email = orNull e, unitAmount = None,
      amount = Some a, expireAt = x, h_createdAt = now\<rparr>"
  have "bundleDoc now g b e a x p = Inr d"
    using iv by (simp add: bundleDoc_def Let_def d_def)
  then have "collect (map (bundleDoc now g b e a x) (p # ps)) = Inr (d # docs)"
    using docs(1) by simp
  moreover have "h_id d = fst p" "h_service d = sel_service (snd p)"
    "h_startISO d = formatISO19 (sel_startISO (snd p))" "h_groupId d = Some g" "expireAt d = x"
    by (simp_all add: d_def)
  ultimately show ?case
    using docs(2-5) by simp
qed

lemma placeHoldBundle_accepts:
  assumes "list_all (selectionPasses be now st) sels"
  shows "\<exists>docs. placeHoldBundle be now st bundleId sels email amt =
            Inr (HoldOk (nextId st),
                 st\<lparr>Holds := Holds st @ docs, nextId := Suc (nextId st) + length sels\<rparr>)
          \<and> length docs = length sels
          \<and> list_all (\<lambda>h. h_groupId h = Some (nextId st)
                          \<and> expireAt h = addMinutes now HOLD_TTL_MIN) docs
          \<and> map h_service docs = map sel_service sels
          \<and> map h_startISO docs = map (\<lambda>sel. formatISO19 (sel_startISO sel)) sels
          \<and> map h_id docs = [Suc (nextId st) ..< Suc (nextId st) + length sels]"
proof -
  define ids where "ids = [Suc (nextId st) ..< Suc (nextId st) + length sels]"
  have lids: "length ids = length sels" by (simp add: ids_def del: upt_Suc)
  from assms have v: "validateSelections be now st sels = Inr None"
    by (simp add: validateSelections_passes)
  have "list_all (\<lambda>p. \<exists>iv. intervalWithBuffer (sel_service (snd p)) (sel_startISO (snd p))
                            = Inr iv) (zip ids sels)"
    using validateSelections_known[OF v]
    by (auto simp: list_all_iff dest: set_zip_rightD)
  from collect_bundleDoc[OF this, of now "nextId st" bundleId email amt
      "addMinutes now HOLD_TTL_MIN"]
  obtain docs where
    c: "collect (map (bundleDoc now (nextId st) bundleId email amt
          (addMinutes now HOLD_TTL_MIN)) (zip ids sels)) = Inr docs" and
    i: "map h_id docs = map fst (zip ids sels)" and
    s: "map h_service docs = map (\<lambda>p. sel_service (snd p)) (zip ids sels)" and
    t: "map h_startISO docs = map (\<lambda>p. formatISO19 (sel_startISO (snd p))) (zip ids sels)" and
    g: "list_all (\<lambda>h. h_groupId h = Some (nextId st)
          \<and> expireAt h = addMinutes now HOLD_TTL_MIN) docs"
    by blast
  have sn: "map snd (zip ids sels) = sels" and fs: "map fst (zip ids sels) = ids"
    using lids by simp_all
  have i': "map h_id docs = ids" using i fs by simp
  have s': "map h_service docs = map sel_service sels"
    using s arg_cong[OF sn, of "map sel_service"] by (simp add: comp_def)
  have t': "map h_startISO docs = map (\<lambda>sel. formatISO19 (sel_startISO sel)) sels"
    using t arg_cong[OF sn, of "map (\<lambda>sel. formatISO19 (sel_startISO sel))"]
    by (simp add: comp_def)
  have len: "length docs = length sels"
    using arg_cong[OF i', of length] lids by simp
  have "placeHoldBundle be now st bundleId sels email amt =
            Inr (HoldOk (nextId st),
                 st\<lparr>Holds := Holds st @ docs, nextId := Suc (nextId st) + length sels\<rparr>)"
    using c by (simp add: placeHoldBundle_def v Let_def ids_def del: upt_Suc)
  with len g s' t' i' show ?thesis unfolding ids_def by blast
qed

section \<open>Confirmation lemmas\<close>

lemma find_deleteOne:
  "distinct (map h_id hs) \<Longrightarrow> find (\<lambda>h. h_id h = i) (deleteOne i hs) = None"
  by (induction hs) (auto simp: find_None_iff image_iff)

lemma findGroup_removed:
  "findGroup be g (filter (\<lambda>h. h_groupId h \<noteq> Some g) hs) = []"
proof -
  have "filter (\<lambda>h. h_groupId h = Some g) (filter (\<lambda>h. h_groupId h \<noteq> Some g) hs) = []"
    by (simp add: filter_empty_conv)
  then show ?thesis by (cases be) (simp_all add: findGroup_def)
qed

text \<open>
  After a successful single confirmation the hold is gone, and the next lookup finds
  nothing: the Mongo handler answers hold expired, the Prisma handler's second query
  throws and it answers confirm failed.  Either way the store stays as it is.
\<close>

lemma confirmSingle_once:
  assumes "distinct (map h_id (Holds st))"
    and "confirmSingle be now st ck sessionId service startISO holdId = (ConfirmedSingle, st')"
  shows "confirmSingle be now' st' ck' sessionId' service' startISO' holdId =
           (case be of Mongo \<Rightarrow> HoldExpired | PrismaAt utcOffset \<Rightarrow> ConfirmFailed, st')"
proof -
  from assms(2) have "Holds st' = deleteOne holdId (Holds st)"
    by (auto simp: confirmSingle_def findHoldById_def Let_def
        split: option.splits sum.splits backend.splits)
  with assms(1) have "find (\<lambda>h. h_id h = holdId) (Holds st') = None"
    by (simp add: find_deleteOne)
  then show ?thesis
    by (cases be) (simp_all add: confirmSingle_def findHoldById_def)
qed

lemma confirmBundle_once:
  assumes "confirmBundle be now st ck sessionId bundleId groupId = (ConfirmedBundle b, st')"
  shows "confirmBundle be now' st' ck' sessionId' bundleId' groupId = (BundleHoldsExpired, st')"
proof -
  from assms have "Holds st' = filter (\<lambda>h. h_groupId h \<noteq> Some groupId) (Holds st)"
    by (auto simp: confirmBundle_def Let_def split: list.splits sum.splits)
  then have "findGroup be groupId (Holds st') = []"
    by (simp add: findGroup_removed)
  then show ?thesis by (simp add: confirmBundle_def)
qed

lemma confirmSingle_replies:
  "fst (confirmSingle be now st ck sessionId service startISO holdId)
      \<in> {HoldExpired, ConfirmFailed, ConfirmedSingle}"
  by (auto simp: confirmSingle_def findHoldById_def Let_def
      split: option.splits sum.splits backend.splits)

lemma confirmBundle_replies:
  "fst (confirmBundle be now st ck sessionId bundleId groupId)
      \<in> {BundleHoldsExpired, ConfirmFailed, ConfirmedBundle bundleId}"
  by (auto simp: confirmBundle_def Let_def split: list.splits sum.splits)

lemma confirmSingle_ignores_expiry:
  assumes "find (\<lambda>h. h_id h = holdId) (Holds st) = Some h" "SERVICES service = Some svc"
  shows "fst (confirmSingle be now st ck sessionId service startISO holdId) = ConfirmedSingle
    \<and> length (Bookings (snd (confirmSingle be now st ck sessionId service startISO holdId)))
        = Suc (length (Bookings st))"
  using assms by (cases be) (simp_all add: confirmSingle_def findHoldById_def intervalWithBuffer_def Let_def)

section \<open>Pricing and credit lemmas\<close>

lemma find_incCredits_same:
  "find (\<lambda>u. u_email u = e) us = Some usr
     \<Longrightarrow> find (\<lambda>u. u_email u = e) (incCredits e n us) = Some (usr\<lparr>hbotCredits := hbotCredits usr + n\<rparr>)"
  by (induction us) (auto split: if_splits)

lemma find_incCredits_other:
  "e' \<noteq> e \<Longrightarrow> find (\<lambda>u. u_email u = e') (incCredits e n us) = find (\<lambda>u. u_email u = e') us"
  by (induction us) auto

lemma find_fresh_append:
  "list_all (\<lambda>h. h_id h < n) hs \<Longrightarrow> h_id h = n
     \<Longrightarrow> find (\<lambda>x. h_id x = n) (hs @ [h]) = Some h"
  by (induction hs) auto

lemma userPriceFor_credit: "0 < hbotCredits usr \<Longrightarrow> userPriceFor ''hbot'' (Some usr) = Inr 60"
  by (simp add: userPriceFor_def)

lemma userPriceFor_base:
  assumes "SERVICES serviceKey = Some svc"
    and "serviceKey \<noteq> ''hbot'' \<or> (case u of None \<Rightarrow> True | Some usr \<Rightarrow> hbotCredits usr \<le> 0)"
  shows "userPriceFor serviceKey u = Inr (price svc)"
  using assms by (auto simp: userPriceFor_def split: option.splits)

lemma checkoutSingle_hbot_credit:
  assumes "findUser st e = Some usr" "e \<noteq> []" "0 < hbotCredits usr"
    and "checkoutSingle be now st (Some e) ''hbot'' startISO = Inr (SessionCreated m charged, st1)"
  shows "charged = 6000 \<and> m = MetaSingle ''hbot'' startISO (nextId st) \<and> Users st1 = Users st
      \<and> (\<exists>h. Holds st1 = Holds st @ [h] \<and> h_id h = nextId st \<and> h_service h = ''hbot''
              \<and> unitAmount h = Some 6000 \<and> h_email h = Some e)"
proof -
  have p: "userPriceFor ''hbot'' (findUser st e) = Inr 60"
    using assms(1,3) by (simp add: userPriceFor_credit)
  have s: "SERVICES ''hbot'' \<noteq> None" by (simp add: SERVICES_def)
  from assms(4) have "\<exists>i. placeHoldSingle be now st ''hbot'' startISO (Some e) 6000
        = Inr (HoldOk i, st1)
      \<and> m = MetaSingle ''hbot'' startISO i \<and> charged = 6000"
    using s assms(2) p
    by (auto simp: checkoutSingle_def orNull_def Let_def
        split: option.splits sum.splits hold_result.splits)
  then obtain i where
    ph: "placeHoldSingle be now st ''hbot'' startISO (Some e) 6000 = Inr (HoldOk i, st1)"
    and m: "m = MetaSingle ''hbot'' startISO i" "charged = 6000"
    by blast
  from ph have "i = nextId st \<and> Users st1 = Users st
      \<and> (\<exists>h. Holds st1 = Holds st @ [h] \<and> h_id h = nextId st \<and> h_service h = ''hbot''
              \<and> unitAmount h = Some 6000 \<and> h_email h = Some e)"
    using assms(2)
    by (auto simp: placeHoldSingle_def Let_def orNull_def split: sum.splits if_splits)
  with m show ?thesis by simp
qed

lemma confirmSingle_consumes_credit:
  assumes "find (\<lambda>h. h_id h = holdId) (Holds st) = Some h"
    and "unitAmount h = Some 6000" "h_email h = Some e" "e \<noteq> []"
    and "findUser st e = Some usr" "0 < hbotCredits usr"
  shows "\<exists>st'. confirmSingle be now st ck sessionId ''hbot'' startISO holdId = (ConfirmedSingle, st')
      \<and> Users st' = incCredits e (- 1) (Users st)
      \<and> findUser st' e = Some (usr\<lparr>hbotCredits := hbotCredits usr - 1\<rparr>)"
proof -
  have s: "\<exists>iv. intervalWithBuffer ''hbot'' startISO = Inr iv"
    by (simp add: intervalWithBuffer_def SERVICES_def Let_def)
  have "find (\<lambda>u. u_email u = e) (incCredits e (- 1) (Users st))
      = Some (usr\<lparr>hbotCredits := hbotCredits usr - 1\<rparr>)"
    using find_incCredits_same[of e "Users st" usr "- 1"] assms(5) by (simp add: findUser_def)
  then show ?thesis
    using assms s
    by (cases be) (auto simp: confirmSingle_def findHoldById_def Let_def orNull_def findUser_def)
qed

lemma confirmSingle_keeps_credit:
  assumes "service \<noteq> ''hbot''
      \<or> (case find (\<lambda>h. h_id h = holdId) (Holds st) of None \<Rightarrow> True
          | Some h \<Rightarrow> unitAmount h \<noteq> Some 6000)"
  shows "Users (snd (confirmSingle be now st ck sessionId service startISO holdId)) = Users st"
  using assms
  by (auto simp: confirmSingle_def findHoldById_def Let_def
      split: option.splits sum.splits backend.splits)

lemma confirmSingle_zero_balance:
  assumes "list_all (\<lambda>u. hbotCredits u \<le> 0) (Users st)"
  shows "Users (snd (confirmSingle be now st ck sessionId service startISO holdId)) = Users st"
proof -
  have "findUser st e = Some usr \<Longrightarrow> usr \<in> set (Users st)" for e usr
    by (auto simp: findUser_def find_Some_iff)
  then have "findUser st e = Some usr \<Longrightarrow> \<not> 0 < hbotCredits usr" for e usr
    using assms by (fastforce simp: list_all_iff)
  then show ?thesis
    by (auto simp: confirmSingle_def findHoldById_def Let_def
      split: option.splits sum.splits backend.splits)
qed

lemma confirmBundle_keeps_credit:
  "Users (snd (confirmBundle be now st ck sessionId bundleId groupId)) = Users st"
  by (auto simp: confirmBundle_def Let_def split: list.splits sum.splits)

lemma SERVICES_price_not_60: "SERVICES k = Some svc \<Longrightarrow> price svc * 100 \<noteq> 6000"
  by (auto simp: SERVICES_def split: if_splits)

lemma checkoutSingle_base_price:
  assumes "SERVICES k = Some svc"
    and "k \<noteq> ''hbot''
         \<or> (case (case orNull cookie of None \<Rightarrow> None | Some e \<Rightarrow> findUser st e) of
               None \<Rightarrow> True | Some x \<Rightarrow> hbotCredits x \<le> 0)"
    and "checkoutSingle be now st cookie k startISO = Inr (SessionCreated m charged, st1)"
  shows "charged = price svc * 100 \<and> Users st1 = Users st
      \<and> (\<exists>h. Holds st1 = Holds st @ [h] \<and> h_id h = nextId st
              \<and> unitAmount h = Some (price svc * 100))"
proof -
  let ?u = "case orNull cookie of None \<Rightarrow> None | Some e \<Rightarrow> findUser st e"
  have p: "userPriceFor k ?u = Inr (price svc)"
    using assms(1,2) by (rule userPriceFor_base)
  from assms(3) have "\<exists>i. placeHoldSingle be now st k startISO cookie (price svc * 100)
        = Inr (HoldOk i, st1) \<and> charged = price svc * 100"
    using assms(1) p
    by (auto simp: checkoutSingle_def Let_def split: sum.splits hold_result.splits)
  then obtain i where
    ph: "placeHoldSingle be now st k startISO cookie (price svc * 100) = Inr (HoldOk i, st1)"
    and c: "charged = price svc * 100"
    by blast
  from ph have "Users st1 = Users st
      \<and> (\<exists>h. Holds st1 = Holds st @ [h] \<and> h_id h = nextId st
              \<and> unitAmount h = Some (price svc * 100))"
    by (auto simp: placeHoldSingle_def Let_def split: sum.splits if_splits)
  with c show ?thesis by simp
qed

lemma confirm_keeps_credit:
  assumes "service \<noteq> ''hbot''
      \<or> (case find (\<lambda>h. h_id h = holdId) (Holds st) of None \<Rightarrow> True
          | Some h \<Rightarrow> unitAmount h \<noteq> Some 6000)"
  shows "Users (snd (confirm be now st cookie
            (Some \<lparr>sid = s, paid = p, metadata = MetaSingle service startISO holdId\<rparr>))) = Users st"
  using confirmSingle_keeps_credit[OF assms] by (simp add: confirm_def Let_def)

lemma checkout_confirm_consumes_credit:
  assumes "findUser st e = Some usr" "e \<noteq> []" "0 < hbotCredits usr"
    and "list_all (\<lambda>h. h_id h < nextId st) (Holds st)"
    and "checkoutSingle be now st (Some e) ''hbot'' startISO = Inr (SessionCreated m charged, st1)"
  shows "\<exists>st2. confirm be now' st1 cookie' (Some \<lparr>sid = s, paid = True, metadata = m\<rparr>)
            = (ConfirmedSingle, st2)
          \<and> Users st2 = incCredits e (- 1) (Users st)
          \<and> findUser st2 e = Some (usr\<lparr>hbotCredits := hbotCredits usr - 1\<rparr>)"
proof -
  from checkoutSingle_hbot_credit[OF assms(1,2,3,5)] obtain h where
    m: "m = MetaSingle ''hbot'' startISO (nextId st)" and u: "Users st1 = Users st" and
    h: "Holds st1 = Holds st @ [h]" "h_id h = nextId st" "unitAmount h = Some 6000"
       "h_email h = Some e"
    by blast
  have f: "find (\<lambda>x. h_id x = nextId st) (Holds st1) = Some h"
    using assms(4) h(1,2) by (simp add: find_fresh_append)
  have fu: "findUser st1 e = Some usr"
    using assms(1) u by (simp add: findUser_def)
  from confirmSingle_consumes_credit[OF f h(3,4) assms(2) fu assms(3),
      of be now' "orNull cookie'" s startISO]
  show ?thesis
    by (simp add: confirm_def Let_def m u)
qed

lemma confirmSingle_credit_rule:
  assumes "find (\<lambda>h. h_id h = holdId) (Holds st) = Some h"
    and "unitAmount h = Some 6000" "h_email h = Some e" "e \<noteq> []"
    and "findUser st e = Some usr"
  shows "\<exists>st'. confirmSingle be now st ck sessionId ''hbot'' startISO holdId = (ConfirmedSingle, st')
      \<and> Users st' = (if 0 < hbotCredits usr then incCredits e (- 1) (Users st) else Users st)
      \<and> findUser st' e =
          Some (if 0 < hbotCredits usr then usr\<lparr>hbotCredits := hbotCredits usr - 1\<rparr> else usr)"
proof -
  have s: "\<exists>iv. intervalWithBuffer ''hbot'' startISO = Inr iv"
    by (simp add: intervalWithBuffer_def SERVICES_def Let_def)
  have f: "findHoldById be holdId (Holds st) = Inr (Some h)"
    using assms(1) by (cases be) (simp_all add: findHoldById_def)
  have "find (\<lambda>u. u_email u = e) (incCredits e (- 1) (Users st))
      = Some (usr\<lparr>hbotCredits := hbotCredits usr - 1\<rparr>)"
    using find_incCredits_same[of e "Users st" usr "- 1"] assms(5) by (simp add: findUser_def)
  then show ?thesis
    using assms s f by (auto simp: confirmSingle_def Let_def orNull_def findUser_def)
qed

lemma confirm_credit_rule:
  assumes "find (\<lambda>h. h_id h = holdId) (Holds st) = Some h"
    and "unitAmount h = Some 6000" "h_email h = Some e" "e \<noteq> []"
    and "findUser st e = Some usr"
  shows "\<exists>st2. confirm be now st cookie
            (Some \<lparr>sid = s, paid = True, metadata = MetaSingle ''hbot'' startISO holdId\<rparr>)
            = (ConfirmedSingle, st2)
      \<and> Users st2 = (if 0 < hbotCredits usr then incCredits e (- 1) (Users st) else Users st)
      \<and> findUser st2 e =
          Some (if 0 < hbotCredits usr then usr\<lparr>hbotCredits := hbotCredits usr - 1\<rparr> else usr)"
  using confirmSingle_credit_rule[OF assms, of be now "orNull cookie" s startISO]
  by (simp add: confirm_def Let_def)

lemma collect_bundleDoc_amount:
  "collect (map (bundleDoc now g b e a x) ps) = Inr docs
     \<Longrightarrow> list_all (\<lambda>h. amount h = Some a) docs"
proof (induction ps arbitrary: docs)
  case Nil
  then show ?case by simp
next
  case (Cons p ps)
  from Cons.prems obtain d ds where
    d: "bundleDoc now g b e a x p = Inr d" and
    ds: "collect (map (bundleDoc now g b e a x) ps) = Inr ds" and
    docs: "docs = d # ds"
    by (auto split: sum.splits)
  from d have "amount d = Some a"
    by (auto simp: bundleDoc_def Let_def split: sum.splits)
  with Cons.IH[OF ds] docs show ?case by simp
qed

lemma checkoutBundle_count_only:
  assumes "find (\<lambda>b. bundle_id b = bundleId) BUNDLES = Some bdl"
    and "length sels = length (services bdl)"
    and "list_all (selectionPasses be now st) sels"
  shows "\<exists>docs. checkoutBundle be now st cookie bundleId sels =
            Inr (SessionCreated (MetaBundle bundleId (nextId st)) (bundle_price bdl * 100),
                 st\<lparr>Holds := Holds st @ docs, nextId := Suc (nextId st) + length sels\<rparr>)
          \<and> map h_service docs = map sel_service sels
          \<and> list_all (\<lambda>h. amount h = Some (bundle_price bdl * 100)) docs"
proof -
  from placeHoldBundle_accepts[OF assms(3), of bundleId cookie "bundle_price bdl * 100"]
  obtain docs where
    p: "placeHoldBundle be now st bundleId sels cookie (bundle_price bdl * 100) =
          Inr (HoldOk (nextId st),
               st\<lparr>Holds := Holds st @ docs, nextId := Suc (nextId st) + length sels\<rparr>)"
    and s: "map h_service docs = map sel_service sels"
    by blast
  from p have "\<exists>ds. collect (map (bundleDoc now (nextId st) bundleId cookie
        (bundle_price bdl * 100) (addMinutes now HOLD_TTL_MIN))
        (zip [Suc (nextId st) ..< Suc (nextId st) + length sels] sels)) = Inr ds
      \<and> Holds st @ ds = Holds st @ docs"
    by (auto simp: placeHoldBundle_def Let_def simp del: upt_Suc
        split: sum.splits option.splits dest: arg_cong[where f = Holds])
  then have a: "list_all (\<lambda>h. amount h = Some (bundle_price bdl * 100)) docs"
    using collect_bundleDoc_amount by fastforce
  have "checkoutBundle be now st cookie bundleId sels =
            Inr (SessionCreated (MetaBundle bundleId (nextId st)) (bundle_price bdl * 100),
                 st\<lparr>Holds := Holds st @ docs, nextId := Suc (nextId st) + length sels\<rparr>)"
    using assms(1,2) p by (simp add: checkoutBundle_def Let_def)
  with s a show ?thesis by blast
qed

section \<open>Identifiers stay unique\<close>

lemma set_deleteOne: "set (deleteOne i hs) \<subseteq> set hs"
  by (induction hs) auto

lemma distinct_deleteOne: "distinct (map h_id hs) \<Longrightarrow> distinct (map h_id (deleteOne i hs))"
proof (induction hs)
  case Nil
  show ?case by simp
next
  case (Cons h hs)
  have "h_id ` set (deleteOne i hs) \<subseteq> h_id ` set hs"
    using set_deleteOne[of i hs] by blast
  with Cons show ?case by auto
qed

lemma uniqueIds_empty: "uniqueIds emptyStore"
  by (simp add: uniqueIds_def emptyStore_def)

lemma uniqueIds_append:
  assumes "uniqueIds st"
    and "map h_id docs = [nextId st + a ..< nextId st + a + length docs]"
    and "list_all (\<lambda>h. case h_groupId h of None \<Rightarrow> True | Some g \<Rightarrow> g \<le> nextId st) docs"
  shows "uniqueIds (st\<lparr>Holds := Holds st @ docs, nextId := nextId st + a + length docs\<rparr>)"
proof -
  have ids: "\<forall>h \<in> set docs. nextId st \<le> h_id h \<and> h_id h < nextId st + a + length docs"
  proof
    fix h assume "h \<in> set docs"
    then have "h_id h \<in> set (map h_id docs)" by simp
    then show "nextId st \<le> h_id h \<and> h_id h < nextId st + a + length docs"
      unfolding assms(2) by auto
  qed
  have d: "distinct (map h_id docs)"
    unfolding assms(2) by simp
  from assms(1) have old: "\<forall>h \<in> set (Holds st). h_id h < nextId st"
    by (simp add: uniqueIds_def list_all_iff)
  have disj: "h_id ` set (Holds st) \<inter> h_id ` set docs = {}"
    using old ids by fastforce
  show ?thesis
    using assms(1,3) d disj ids
    by (fastforce simp: uniqueIds_def list_all_iff split: option.splits)
qed

lemma uniqueIds_shrink:
  assumes "uniqueIds st" "set hs \<subseteq> set (Holds st)" "distinct (map h_id hs)" "nextId st \<le> n"
  shows "uniqueIds (st\<lparr>Users := us, Bookings := bs, Holds := hs, nextId := n\<rparr>)"
  using assms by (fastforce simp: uniqueIds_def list_all_iff split: option.splits)

lemma placeHoldSingle_uniqueIds:
  assumes "uniqueIds st" "placeHoldSingle be now st service startISO email amt = Inr (r, st')"
  shows "uniqueIds st'"
proof (cases "st' = st")
  case True
  with assms(1) show ?thesis by simp
next
  case False
  with assms(2) obtain doc where
    st': "st' = st\<lparr>Holds := Holds st @ [doc], nextId := Suc (nextId st)\<rparr>"
    and doc: "h_id doc = nextId st" "h_groupId doc = None"
    by (auto simp: placeHoldSingle_def Let_def split: sum.splits if_splits)
  from uniqueIds_append[OF assms(1), of "[doc]" 0] doc
  show ?thesis by (simp add: st')
qed

lemma placeHoldBundle_uniqueIds:
  assumes "uniqueIds st" "placeHoldBundle be now st bundleId sels email amt = Inr (r, st')"
  shows "uniqueIds st'"
proof (cases "list_all (selectionPasses be now st) sels")
  case False
  from placeHoldBundle_rejects[OF this, of bundleId email amt] assms(2)
  have "st' = st" by simp
  with assms(1) show ?thesis by simp
next
  case True
  from placeHoldBundle_accepts[OF this, of bundleId email amt] assms(2)
  obtain docs where
    st': "st' = st\<lparr>Holds := Holds st @ docs, nextId := Suc (nextId st) + length sels\<rparr>"
    and len: "length docs = length sels"
    and g: "list_all (\<lambda>h. h_groupId h = Some (nextId st)
              \<and> expireAt h = addMinutes now HOLD_TTL_MIN) docs"
    and ids: "map h_id docs = [Suc (nextId st) ..< Suc (nextId st) + length sels]"
    by auto
  have "list_all (\<lambda>h. case h_groupId h of None \<Rightarrow> True | Some g \<Rightarrow> g \<le> nextId st) docs"
    using g by (auto simp: list_all_iff)
  from uniqueIds_append[OF assms(1) _ this, of 1] ids len
  show ?thesis by (simp add: st' del: upt_Suc)
qed

lemma confirm_uniqueIds:
  assumes "uniqueIds st"
  shows "uniqueIds (snd (confirm be now st cookie sess))"
proof -
  have single: "uniqueIds (snd (confirmSingle be now st ck sessionId service startISO holdId))"
    for ck sessionId service startISO holdId
  proof -
    have "uniqueIds (st\<lparr>Users := us, Bookings := bs, Holds := deleteOne holdId (Holds st),
        nextId := Suc (nextId st)\<rparr>)" for us bs
      using assms set_deleteOne[of holdId "Holds st"] distinct_deleteOne[of "Holds st" holdId]
      by (intro uniqueIds_shrink) (auto simp: uniqueIds_def)
    with assms show ?thesis
      by (auto simp: confirmSingle_def findHoldById_def Let_def
          split: option.splits sum.splits backend.splits)
  qed
  have grp: "uniqueIds (snd (confirmBundle be now st ck sessionId bundleId groupId))"
    for ck sessionId bundleId groupId
  proof -
    have "uniqueIds (st\<lparr>Users := Users st, Bookings := bs,
        Holds := filter (\<lambda>h. h_groupId h \<noteq> Some groupId) (Holds st),
        nextId := m\<rparr>)" if "nextId st \<le> m" for bs m
      using assms that
      by (intro uniqueIds_shrink) (auto simp: uniqueIds_def distinct_map_filter)
    then have "uniqueIds (st\<lparr>Bookings := bs,
        Holds := filter (\<lambda>h. h_groupId h \<noteq> Some groupId) (Holds st),
        nextId := m\<rparr>)" if "nextId st \<le> m" for bs m
      using that by simp
    with assms show ?thesis
      by (auto simp: confirmBundle_def Let_def split: list.splits sum.splits)
  qed
  show ?thesis
    using assms single grp
    by (auto simp: confirm_def Let_def split: option.splits meta.splits)
qed

lemma handle_uniqueIds:
  assumes "uniqueIds st"
  shows "uniqueIds (handle be now rq st)"
proof (cases rq)
  case (CheckoutSingle cookie service startISO)
  with assms show ?thesis
    by (auto simp: checkoutSingle_def Let_def
        split: sum.splits option.splits hold_result.splits
        dest: placeHoldSingle_uniqueIds)
next
  case (CheckoutBundle cookie bundleId sels)
  with assms show ?thesis
    by (auto simp: checkoutBundle_def Let_def
        split: sum.splits option.splits hold_result.splits if_splits
        dest: placeHoldBundle_uniqueIds)
next
  case (Confirm cookie sess)
  with assms show ?thesis by (simp add: confirm_uniqueIds)
next
  case Sweep
  have "uniqueIds (st\<lparr>Users := Users st, Bookings := Bookings st,
      Holds := filter (\<lambda>h. now < expireAt h) (Holds st), nextId := nextId st\<rparr>)"
    using assms by (intro uniqueIds_shrink) (auto simp: uniqueIds_def distinct_map_filter)
  with Sweep assms show ?thesis by (cases be) (simp_all add: sweepExpired_def)
qed

lemma run_uniqueIds: "uniqueIds st \<Longrightarrow> uniqueIds (run be reqs st)"
  by (induction reqs arbitrary: st) (auto simp: handle_uniqueIds)

lemma reachable_uniqueIds: "uniqueIds (run be reqs emptyStore)"
  by (simp add: run_uniqueIds uniqueIds_empty)

section \<open>Stored intervals run forwards\<close>

lemma formatISO19_mono: "a \<le> b \<Longrightarrow> formatISO19 a \<le> formatISO19 b"
proof -
  assume "a \<le> b"
  then have "a div 1000 \<le> b div 1000" by (simp add: zdiv_mono1)
  moreover have "formatISO19 x = 1000 * (x div 1000)" for x
    by (simp add: formatISO19_def minus_mod_eq_mult_div)
  ultimately show ?thesis by simp
qed

lemma bufferOf_nonneg: "0 \<le> bufferOf k"
  by (simp add: bufferOf_def BUFFERS_def)

lemma intervalWithBuffer_forward:
  assumes "intervalWithBuffer k t = Inr iv"
  shows "i_start iv = t \<and> t \<le> i_end iv \<and> i_end iv \<le> i_endWB iv"
proof -
  from assms obtain svc where svc: "SERVICES k = Some svc"
    by (auto simp: intervalWithBuffer_def split: option.splits)
  from SERVICES_duration_pos[OF svc] bufferOf_nonneg[of k] assms svc show ?thesis
    by (auto simp: intervalWithBuffer_def Let_def addMinutes_def)
qed

lemma forward_hold:
  assumes "intervalWithBuffer k t = Inr iv"
  shows "formatISO19 t \<le> formatISO19 (i_endWB iv)"
  using intervalWithBuffer_forward[OF assms] by (intro formatISO19_mono) simp

lemma forward_booking:
  assumes "intervalWithBuffer k t = Inr iv"
  shows "formatISO19 t \<le> addMinutes (formatISO19 (i_end iv)) (bufferOf k)"
proof -
  have "formatISO19 t \<le> formatISO19 (i_end iv)"
    using intervalWithBuffer_forward[OF assms] by (intro formatISO19_mono) simp
  with bufferOf_nonneg[of k] show ?thesis by (simp add: addMinutes_def)
qed

lemma placeHoldSingle_forward:
  assumes "forwardIntervals st" "placeHoldSingle be now st service startISO email amt = Inr (r, st')"
  shows "forwardIntervals st'"
  using assms
  by (auto simp: placeHoldSingle_def Let_def forwardIntervals_def forward_hold
      split: sum.splits if_splits)

lemma collect_bundleDoc_forward:
  "collect (map (bundleDoc now g b e a x) ps) = Inr docs
     \<Longrightarrow> list_all (\<lambda>h. h_startISO h \<le> h_endISOWB h) docs"
proof (induction ps arbitrary: docs)
  case Nil
  then show ?case by simp
next
  case (Cons p ps)
  from Cons.prems obtain d ds where
    d: "bundleDoc now g b e a x p = Inr d" and
    ds: "collect (map (bundleDoc now g b e a x) ps) = Inr ds" and
    docs: "docs = d # ds"
    by (auto split: sum.splits)
  from d have "h_startISO d \<le> h_endISOWB d"
    by (auto simp: bundleDoc_def Let_def forward_hold split: sum.splits)
  with Cons.IH[OF ds] docs show ?case by simp
qed

lemma placeHoldBundle_forward:
  assumes "forwardIntervals st" "placeHoldBundle be now st bundleId sels email amt = Inr (r, st')"
  shows "forwardIntervals st'"
  using assms
  by (auto simp: placeHoldBundle_def Let_def forwardIntervals_def
      simp del: upt_Suc split: sum.splits option.splits dest: collect_bundleDoc_forward)

lemma collect_bundleBooking_forward:
  "collect (map (bundleBooking now g e s) ps) = Inr bs
     \<Longrightarrow> list_all (\<lambda>b. b_startISO b \<le> addMinutes (b_endISO b) (bufferOf (b_service b))) bs"
proof (induction ps arbitrary: bs)
  case Nil
  then show ?case by simp
next
  case (Cons p ps)
  from Cons.prems obtain d ds where
    d: "bundleBooking now g e s p = Inr d" and
    ds: "collect (map (bundleBooking now g e s) ps) = Inr ds" and
    bs: "bs = d # ds"
    by (auto split: sum.splits)
  from d have "b_startISO d \<le> addMinutes (b_endISO d) (bufferOf (b_service d))"
    by (auto simp: bundleBooking_def Let_def forward_booking split: sum.splits)
  with Cons.IH[OF ds] bs show ?case by simp
qed

lemma confirm_forward:
  assumes "forwardIntervals st"
  shows "forwardIntervals (snd (confirm be now st cookie sess))"
proof -
  have sub: "list_all P hs \<Longrightarrow> list_all P (deleteOne i hs)" for P i and hs :: "hold list"
    using set_deleteOne[of i hs] by (auto simp: list_all_iff)
  have single: "forwardIntervals (snd (confirmSingle be now st ck sessionId service startISO holdId))"
    for ck sessionId service startISO holdId
    using assms
    by (auto simp: confirmSingle_def findHoldById_def Let_def forwardIntervals_def
        forward_booking sub split: option.splits sum.splits backend.splits)
  have grp: "forwardIntervals (snd (confirmBundle be now st ck sessionId bundleId groupId))"
    for ck sessionId bundleId groupId
    using assms
    by (auto simp: confirmBundle_def Let_def forwardIntervals_def list_all_iff
        simp del: upt_Suc split: list.splits sum.splits
        dest!: collect_bundleBooking_forward)
  show ?thesis
    using assms single grp
    by (auto simp: confirm_def Let_def split: option.splits meta.splits)
qed

lemma handle_forward:
  assumes "forwardIntervals st"
  shows "forwardIntervals (handle be now rq st)"
proof (cases rq)
  case (CheckoutSingle cookie service startISO)
  with assms show ?thesis
    by (auto simp: checkoutSingle_def Let_def
        split: sum.splits option.splits hold_result.splits
        dest: placeHoldSingle_forward)
next
  case (CheckoutBundle cookie bundleId sels)
  with assms show ?thesis
    by (auto simp: checkoutBundle_def Let_def
        split: sum.splits option.splits hold_result.splits if_splits
        dest: placeHoldBundle_forward)
next
  case (Confirm cookie sess)
  with assms show ?thesis by (simp add: confirm_forward)
next
  case Sweep
  with assms show ?thesis
    by (cases be) (auto simp: sweepExpired_def forwardIntervals_def list_all_iff)
qed

lemma reachable_forwardIntervals: "forwardIntervals (run be reqs emptyStore)"
proof -
  have "forwardIntervals st \<Longrightarrow> forwardIntervals (run be reqs st)" for st
    by (induction reqs arbitrary: st) (auto simp: handle_forward)
  moreover have "forwardIntervals emptyStore"
    by (simp add: forwardIntervals_def emptyStore_def)
  ultimately show ?thesis by simp
qed

section \<open>Claims about the calendar and the availability listing\<close>

lemma tuesday_window:
  assumes "weekdayKey d = 2"
  shows "businessWindowOn (toDay d (11, 0)) =
     Some \<lparr>w_open = toDay d (7, 0), w_close = toDay d (12, 0)\<rparr>"
proof -
  have t: "toDay d (11, 0) = startOfDay d + 39600000" by (simp add: toDay_def)
  have wk: "weekdayKey (toDay d (11, 0)) = 2" using assms by (simp add: t weekdayKey_add)
  show ?thesis
    by (simp add: businessWindowOn_def wk WEEKLY_HOURS_def) (simp add: toDay_def startOfDay_add)
qed

lemma hbot_interval_from_11:
  "intervalWithBuffer ''hbot'' (toDay d (11, 0)) =
     Inr \<lparr>i_start = toDay d (11, 0), i_end = toDay d (12, 0), i_endWB = toDay d (12, 30)\<rparr>"
  by (simp add: intervalWithBuffer_def SERVICES_def bufferOf_def BUFFERS_def addMinutes_def
      toDay_def)

text \<open>
  Claim C7.  The business-hours check compares the service end, without the buffer,
  against closing time, so that on a Tuesday (closing 12:00) the 60-minute service with
  its 30-minute buffer is accepted at 11:00.  The Mongo check does that, and so does the
  Prisma check in a process at UTC or east of it (lemmas \<open>withinHours_known\<close> and
  \<open>tuesday_hbot_hold\<close>).  In a process west of UTC the Prisma check does not: at
  America/Chicago (six hours behind) the date text of Tuesday 2025-01-07 is read as
  Monday 18:00, the window is Monday's, and the start of Tuesday 11:00
  (1736247600000), which fits Tuesday's window, is answered no and the hold is rejected
  as outside business hours; lemma \<open>withinHoursPrisma_west_of_UTC\<close> shows that every
  start is.
\<close>

theorem withinHoursPrisma_rejects_west_of_UTC:
  "businessWindowOn 1736247600000 =
     Some \<lparr>w_open = 1736233200000, w_close = 1736251200000\<rparr>
   \<and> intervalWithBuffer ''hbot'' 1736247600000 =
       Inr \<lparr>i_start = 1736247600000, i_end = 1736251200000, i_endWB = 1736253000000\<rparr>
   \<and> withinHours Mongo ''hbot'' 1736247600000 = Inr True
   \<and> withinHours (PrismaAt 0) ''hbot'' 1736247600000 = Inr True
   \<and> dateOnlyToDate (- 360) 1736247600000 = 1736186400000
   \<and> businessWindowOn 1736186400000 =
       Some \<lparr>w_open = 1736146800000, w_close = 1736186400000\<rparr>
   \<and> withinHours (PrismaAt (- 360)) ''hbot'' 1736247600000 = Inr False
   \<and> placeHoldSingle (PrismaAt (- 360)) 1736240000000 emptyStore ''hbot'' 1736247600000
        None 7500 =
       Inr (HoldRejected ''outside business hours'', emptyStore)
   \<and> placeHoldSingle Mongo 1736240000000 emptyStore ''hbot'' 1736247600000 None 7500 =
       Inr (HoldOk 0,
            \<lparr>Users = [], Bookings = [],
             Holds = [\<lparr>h_id = 0, h_type = ''single'', h_groupId = None, h_bundleId = None,
                       h_service = ''hbot'', h_startISO = 1736247600000,
                       h_endISO = 1736251200000, h_endISOWB = 1736253000000, h_email = None,
                       unitAmount = Some 7500, amount = None, expireAt = 1736240720000,
                       h_createdAt = 1736240000000\<rparr>],
             nextId = 1\<rparr>)"
  by code_simp

lemma monday_window:
  assumes "weekdayKey date = 1"
  shows "businessWindowOn date = Some \<lparr>w_open = toDay date (7, 0), w_close = toDay date (18, 0)\<rparr>"
  using assms by (simp add: businessWindowOn_def WEEKLY_HOURS_def)

lemma monday_grid:
  "slotGrid (toDay date (7, 0)) (toDay date (18, 0)) 15 =
     map (\<lambda>k. addMinutes (toDay date (7, 0)) (15 * int k)) [0 ..< 44]"
proof -
  have "(toDay date (18, 0) - addMinutes (toDay date (7, 0)) 15) div (SLOT * 60000) = 43"
    by (simp add: toDay_def addMinutes_def SLOT_def)
  moreover have "addMinutes (toDay date (7, 0)) 15 \<le> toDay date (18, 0)"
    by (simp add: toDay_def addMinutes_def)
  ultimately show ?thesis
    by (simp add: slotGrid_def SLOT_def del: upt_Suc)
qed

lemma emptyStore_free: "\<not> overlaps be now emptyStore serviceKey start endWB"
  by (cases be) (simp_all add: overlaps_def overlapsMongo_def overlapsPrisma_def emptyStore_def)

lemma formatISO19_grid:
  "formatISO19 (addMinutes (toDay date (7, 0)) (15 * int k + j)) =
     addMinutes (toDay date (7, 0)) (15 * int k + j)"
proof -
  have "addMinutes (toDay date (7, 0)) (15 * int k + j)
      = startOfDay date + (25200000 + (15 * int k + j) * 60000)"
    by (simp add: addMinutes_def toDay_def)
  moreover have "25200000 + (15 * int k + j) * 60000 = 1000 * (25200 + (15 * int k + j) * 60)"
    by (simp add: algebra_simps)
  then have "(25200000 + (15 * int k + j) * 60000) mod 1000 = 0"
    by (simp only: mod_mult_self1_is_0)
  ultimately show ?thesis
    by (simp only: formatISO19_startOfDay_add)
qed

lemma getAvailability_grid:
  assumes svc: "SERVICES service = Some svc"
  shows "getAvailability be now st service date =
        Inr (Slots (case businessWindowOn date of
                      None \<Rightarrow> []
                    | Some win \<Rightarrow>
                        map (\<lambda>c. \<lparr>s_startISO = formatISO19 c,
                                  s_endISO = formatISO19 (addMinutes c (duration svc))\<rparr>)
                          (filter (\<lambda>c. \<not> overlaps be now st service c
                                     (addMinutes (addMinutes c (duration svc))
                                        (bufferOf service)))
                             (slotGrid (w_open win) (w_close win) (duration svc)))))"
  by (simp add: getAvailability_def svc availabilityLoop_grid[OF svc] split: option.splits)

lemma getAvailability_monday_sauna:
  assumes mon: "weekdayKey date = 1"
  shows "getAvailability be now emptyStore ''sauna'' date =
          Inr (Slots (map (\<lambda>k. \<lparr>s_startISO = addMinutes (toDay date (7, 0)) (15 * int k),
                                 s_endISO = addMinutes (toDay date (7, 0)) (15 * int k + 15)\<rparr>)
                        [0 ..< 44]))"
proof -
  have svc: "SERVICES ''sauna'' = Some \<lparr>svc_name = ''Infrared Sauna'', duration = 15, price = 10\<rparr>"
    by (simp add: SERVICES_def)
  have slot: "\<lparr>s_startISO = formatISO19 (addMinutes (toDay date (7, 0)) (15 * int k)),
        s_endISO = formatISO19 (addMinutes (addMinutes (toDay date (7, 0)) (15 * int k)) 15)\<rparr>
      = \<lparr>s_startISO = addMinutes (toDay date (7, 0)) (15 * int k),
         s_endISO = addMinutes (toDay date (7, 0)) (15 * int k + 15)\<rparr>" for k
  proof -
    have "addMinutes (addMinutes (toDay date (7, 0)) (15 * int k)) 15
        = addMinutes (toDay date (7, 0)) (15 * int k + 15)"
      by (simp add: addMinutes_def)
    then show ?thesis
      using formatISO19_grid[of date k 0] formatISO19_grid[of date k 15] by simp
  qed
  show ?thesis
    by (simp add: getAvailability_def svc availabilityLoop_grid[OF svc] monday_window[OF mon]
        emptyStore_free monday_grid slot comp_def del: upt_Suc)
qed

text \<open>
  On the Mongo server the listing is the slot grid less the positions that conflict in
  the words of the specification.
\<close>

lemma getAvailability_Mongo_bufferedConflict:
  assumes svc: "SERVICES service = Some svc" and fwd: "forwardIntervals st"
  shows "getAvailability Mongo now st service date =
        Inr (Slots (case businessWindowOn date of
                      None \<Rightarrow> []
                    | Some win \<Rightarrow>
                        map (\<lambda>c. \<lparr>s_startISO = formatISO19 c,
                                  s_endISO = formatISO19 (addMinutes c (duration svc))\<rparr>)
                          (filter (\<lambda>c. \<not> bufferedConflict now st service c
                                     (addMinutes (addMinutes c (duration svc))
                                        (bufferOf service)))
                             (slotGrid (w_open win) (w_close win) (duration svc)))))"
proof -
  have "overlaps Mongo now st service c
          (addMinutes (addMinutes c (duration svc)) (bufferOf service))
      = bufferedConflict now st service c
          (addMinutes (addMinutes c (duration svc)) (bufferOf service))" for c
  proof -
    have "c \<le> addMinutes (addMinutes c (duration svc)) (bufferOf service)"
      using SERVICES_duration_pos[OF svc] bufferOf_nonneg[of service]
      by (simp add: addMinutes_def)
    from overlapsMongo_bufferedConflict[OF this fwd] show ?thesis
      by (simp add: overlaps_def)
  qed
  then show ?thesis
    by (simp add: getAvailability_grid[OF svc] split: option.splits)
qed

text \<open>
  Claim C8.  The availability listing is empty on a closed day and otherwise the cursor
  positions from opening in 15-minute steps whose service end is not after closing and
  for which no conflict exists; on a Monday, for the sauna and an empty store, these are
  the 44 starts 07:00, ..., 17:45.  The grid is as claimed on both servers (lemmas
  \<open>getAvailability_grid\<close> and \<open>getAvailability_monday_sauna\<close>), and on the Mongo server
  "no conflict" is the specification's (lemma
  \<open>getAvailability_Mongo_bufferedConflict\<close>).  On the Prisma server it is not: after the
  hyperbaric session of Monday 07:00 to 08:00 is booked (buffer until 08:30) the listing
  for that Monday starts at 08:00 (1736150400000) and so offers 08:00, 08:15 and 08:30,
  each in conflict with the booking; the Mongo listing starts at 08:45.
\<close>

theorem getAvailability_Prisma_lists_conflicts:
  "getAvailability Prisma 1736100120000 (run Prisma hbotBooked emptyStore) ''hbot''
      1736121600000 =
     Inr (Slots (map (\<lambda>k. \<lparr>s_startISO = 1736150400000 + 900000 * int k,
                           s_endISO = 1736154000000 + 900000 * int k\<rparr>) [0 ..< 37]))
   \<and> bufferedConflict 1736100120000 (run Prisma hbotBooked emptyStore) ''hbot''
        1736150400000 1736155800000
   \<and> bufferedConflict 1736100120000 (run Prisma hbotBooked emptyStore) ''hbot''
        1736151300000 1736156700000
   \<and> bufferedConflict 1736100120000 (run Prisma hbotBooked emptyStore) ''hbot''
        1736152200000 1736157600000
   \<and> run Mongo hbotBooked emptyStore = run Prisma hbotBooked emptyStore
   \<and> getAvailability Mongo 1736100120000 (run Mongo hbotBooked emptyStore) ''hbot''
        1736121600000 =
       Inr (Slots (map (\<lambda>k. \<lparr>s_startISO = 1736153100000 + 900000 * int k,
                             s_endISO = 1736156700000 + 900000 * int k\<rparr>) [0 ..< 34]))"
  by code_simp

section \<open>Claims about holds\<close>

text \<open>
  Claim C5.  Placing a bundle hold is all or nothing.  When some selection does not pass
  the hours, cutoff and conflict checks, the call returns a rejection with the store
  unchanged; it throws instead, before any write, only when a selection names an unknown
  service.  When every selection passes, one hold per selection is appended, in order,
  each with the one new group identifier and the one expiry time.
\<close>

theorem placeHoldBundle_all_or_nothing:
  "(\<not> list_all (selectionPasses be now st) sels \<longrightarrow>
      (case placeHoldBundle be now st bundleId sels email amt of
         Inl e \<Rightarrow> \<not> list_all (\<lambda>sel. SERVICES (sel_service sel) \<noteq> None) sels
       | Inr (r, st') \<Rightarrow> st' = st \<and> (\<exists>err. r = HoldRejected err)))
   \<and> (list_all (selectionPasses be now st) sels \<longrightarrow>
      (\<exists>docs. placeHoldBundle be now st bundleId sels email amt =
            Inr (HoldOk (nextId st),
                 st\<lparr>Holds := Holds st @ docs, nextId := Suc (nextId st) + length sels\<rparr>)
          \<and> length docs = length sels
          \<and> list_all (\<lambda>h. h_groupId h = Some (nextId st)
                          \<and> expireAt h = addMinutes now HOLD_TTL_MIN) docs
          \<and> map h_service docs = map sel_service sels
          \<and> map h_startISO docs = map (\<lambda>sel. formatISO19 (sel_startISO sel)) sels
          \<and> map h_id docs = [Suc (nextId st) ..< Suc (nextId st) + length sels]))"
proof (intro conjI impI)
  assume "\<not> list_all (selectionPasses be now st) sels"
  then show "case placeHoldBundle be now st bundleId sels email amt of
         Inl e \<Rightarrow> \<not> list_all (\<lambda>sel. SERVICES (sel_service sel) \<noteq> None) sels
       | Inr (r, st') \<Rightarrow> st' = st \<and> (\<exists>err. r = HoldRejected err)"
    by (rule placeHoldBundle_rejects)
next
  assume "list_all (selectionPasses be now st) sels"
  then show "\<exists>docs. placeHoldBundle be now st bundleId sels email amt =
            Inr (HoldOk (nextId st),
                 st\<lparr>Holds := Holds st @ docs, nextId := Suc (nextId st) + length sels\<rparr>)
          \<and> length docs = length sels
          \<and> list_all (\<lambda>h. h_groupId h = Some (nextId st)
                          \<and> expireAt h = addMinutes now HOLD_TTL_MIN) docs
          \<and> map h_service docs = map sel_service sels
          \<and> map h_startISO docs = map (\<lambda>sel. formatISO19 (sel_startISO sel)) sels
          \<and> map h_id docs = [Suc (nextId st) ..< Suc (nextId st) + length sels]"
    by (rule placeHoldBundle_accepts)
qed

text \<open>
  Monday 2025-01-06: the cold plunge at 07:00 with the sauna at 07:15 passes; with the
  sauna moved to Sunday 07:15 the second selection is outside hours.
\<close>

theorem placeHoldBundle_all_or_nothing_witness:
  "list_all (selectionPasses Mongo 1736100000000 emptyStore)
     [\<lparr>sel_service = ''icebath'', sel_startISO = 1736146800000\<rparr>,
      \<lparr>sel_service = ''sauna'', sel_startISO = 1736147700000\<rparr>]
   \<and> (\<exists>docs. placeHoldBundle Mongo 1736100000000 emptyStore ''bundle_alt_cold_sauna''
          [\<lparr>sel_service = ''icebath'', sel_startISO = 1736146800000\<rparr>,
           \<lparr>sel_service = ''sauna'', sel_startISO = 1736147700000\<rparr>] None 2000 =
          Inr (HoldOk 0, emptyStore\<lparr>Holds := docs, nextId := 3\<rparr>)
        \<and> length docs = 2
        \<and> list_all (\<lambda>h. h_groupId h = Some 0 \<and> expireAt h = 1736100720000) docs
        \<and> map h_service docs = [''icebath'', ''sauna'']
        \<and> map h_startISO docs = [1736146800000, 1736147700000]
        \<and> map h_id docs = [1, 2])
   \<and> \<not> list_all (selectionPasses Mongo 1736100000000 emptyStore)
       [\<lparr>sel_service = ''icebath'', sel_startISO = 1736146800000\<rparr>,
        \<lparr>sel_service = ''sauna'', sel_startISO = 1736061300000\<rparr>]
   \<and> (\<exists>err. placeHoldBundle Mongo 1736100000000 emptyStore ''bundle_alt_cold_sauna''
          [\<lparr>sel_service = ''icebath'', sel_startISO = 1736146800000\<rparr>,
           \<lparr>sel_service = ''sauna'', sel_startISO = 1736061300000\<rparr>] None 2000 =
          Inr (HoldRejected err, emptyStore))
   \<and> placeHoldBundle Mongo 1736100000000 emptyStore ''bundle_alt_cold_sauna''
        [\<lparr>sel_service = ''icebath'', sel_startISO = 1736146800000\<rparr>,
         \<lparr>sel_service = ''sauna'', sel_startISO = 1736061300000\<rparr>] None 2000 =
        Inr (HoldRejected ''outside hours'', emptyStore)"
proof -
  let ?good = "[\<lparr>sel_service = ''icebath'', sel_startISO = 1736146800000\<rparr>,
      \<lparr>sel_service = ''sauna'', sel_startISO = 1736147700000\<rparr>]"
  let ?bad = "[\<lparr>sel_service = ''icebath'', sel_startISO = 1736146800000\<rparr>,
      \<lparr>sel_service = ''sauna'', sel_startISO = 1736061300000\<rparr>]"
  have good: "list_all (selectionPasses Mongo 1736100000000 emptyStore) ?good"
    by code_simp
  have bad: "\<not> list_all (selectionPasses Mongo 1736100000000 emptyStore) ?bad"
    by code_simp
  have rej: "placeHoldBundle Mongo 1736100000000 emptyStore ''bundle_alt_cold_sauna''
        ?bad None 2000 = Inr (HoldRejected ''outside hours'', emptyStore)"
    by code_simp
  note th = placeHoldBundle_all_or_nothing[where be = Mongo and now = 1736100000000
      and st = emptyStore and bundleId = "''bundle_alt_cold_sauna''" and email = None
      and amt = 2000]
  from th[where sels = ?good] good
  have "\<exists>docs. placeHoldBundle Mongo 1736100000000 emptyStore ''bundle_alt_cold_sauna''
          ?good None 2000 =
          Inr (HoldOk 0, emptyStore\<lparr>Holds := docs, nextId := 3\<rparr>)
        \<and> length docs = 2
        \<and> list_all (\<lambda>h. h_groupId h = Some 0 \<and> expireAt h = 1736100720000) docs
        \<and> map h_service docs = [''icebath'', ''sauna'']
        \<and> map h_startISO docs = [1736146800000, 1736147700000]
        \<and> map h_id docs = [1, 2]"
    by (simp add: emptyStore_def addMinutes_def HOLD_TTL_MIN_def formatISO19_def
        upt_conv_Cons eval_nat_numeral)
  moreover have known: "list_all (\<lambda>sel. SERVICES (sel_service sel) \<noteq> None) ?bad"
    by code_simp
  from th[where sels = ?bad] bad known
  have "\<exists>err. placeHoldBundle Mongo 1736100000000 emptyStore ''bundle_alt_cold_sauna''
          ?bad None 2000 = Inr (HoldRejected err, emptyStore)"
    by (auto split: sum.splits prod.splits)
  ultimately show ?thesis using good bad rej by blast
qed

section \<open>Claims about confirmation\<close>

lemma confirm_again:
  assumes "distinct (map h_id (Holds st))"
    and "confirm be now st cookie sess = (r, st')"
    and "r = ConfirmedSingle \<or> r = ConfirmedBundle b"
  shows "confirm be now' st' cookie' sess =
           (if r = ConfirmedSingle
            then (case be of Mongo \<Rightarrow> HoldExpired | PrismaAt utcOffset \<Rightarrow> ConfirmFailed)
            else BundleHoldsExpired, st')"
proof (cases sess)
  case None
  with assms show ?thesis by (auto simp: confirm_def)
next
  case (Some s)
  show ?thesis
  proof (cases "paid s")
    case False
    with Some assms show ?thesis by (auto simp: confirm_def)
  next
    case True
    show ?thesis
    proof (cases "metadata s")
      case (MetaSingle service startISO holdId)
      with Some True assms(2) have
        c: "confirmSingle be now st (orNull cookie) (sid s) service startISO holdId = (r, st')"
        by (simp add: confirm_def)
      with confirmSingle_replies[of be now st "orNull cookie" "sid s" service startISO holdId]
        assms(3)
      have r: "r = ConfirmedSingle" by auto
      from confirmSingle_once[OF assms(1) c[unfolded r]] Some True MetaSingle r
      show ?thesis by (simp add: confirm_def)
    next
      case (MetaBundle bundleId groupId)
      with Some True assms(2) have
        c: "confirmBundle be now st (orNull cookie) (sid s) bundleId groupId = (r, st')"
        by (simp add: confirm_def)
      with confirmBundle_replies[of be now st "orNull cookie" "sid s" bundleId groupId]
        assms(3)
      have r: "r = ConfirmedBundle bundleId" by auto
      from confirmBundle_once[OF c[unfolded r]] Some True MetaBundle r
      show ?thesis by (simp add: confirm_def)
    next
      case MetaOther
      with Some True assms show ?thesis by (auto simp: confirm_def)
    qed
  qed
qed

text \<open>
  Claim C6.  After a successful confirmation a second confirmation of the same hold or
  group returns the hold-expired rejection and inserts no further booking.  No further
  booking is inserted on either server, the Mongo server answers hold expired, and for a
  group both servers do (lemma \<open>confirm_again\<close>).  For a single hold the Prisma server
  does not: the hold being gone, its second lookup \<open>Holds.findOne({ _id: holdId })\<close>
  throws, the handler's \<open>try\<close> catches it, and the reply is 500 confirm failed instead of
  409 hold expired.  Below, one sauna hold is confirmed at 1736100060000 and again a
  minute later.
\<close>

theorem second_confirm_fails_on_Prisma:
  "confirm Prisma 1736100060000
       (run Prisma [(1736100000000, CheckoutSingle None ''sauna'' 1736146800000)] emptyStore)
       None (Some \<lparr>sid = ''cs_a'', paid = True,
                   metadata = MetaSingle ''sauna'' 1736146800000 0\<rparr>) =
     (ConfirmedSingle,
      \<lparr>Users = [],
       Bookings = [\<lparr>b_id = 1, b_groupId = None, b_service = ''sauna'',
                    b_startISO = 1736146800000, b_endISO = 1736147700000,
                    clientEmail = None, paidSessionId = ''cs_a'',
                    b_createdAt = 1736100060000\<rparr>],
       Holds = [], nextId = 2\<rparr>)
   \<and> confirm Prisma 1736100120000
       \<lparr>Users = [],
        Bookings = [\<lparr>b_id = 1, b_groupId = None, b_service = ''sauna'',
                     b_startISO = 1736146800000, b_endISO = 1736147700000,
                     clientEmail = None, paidSessionId = ''cs_a'',
                     b_createdAt = 1736100060000\<rparr>],
        Holds = [], nextId = 2\<rparr>
       None (Some \<lparr>sid = ''cs_a'', paid = True,
                   metadata = MetaSingle ''sauna'' 1736146800000 0\<rparr>) =
     (ConfirmFailed,
      \<lparr>Users = [],
       Bookings = [\<lparr>b_id = 1, b_groupId = None, b_service = ''sauna'',
                    b_startISO = 1736146800000, b_endISO = 1736147700000,
                    clientEmail = None, paidSessionId = ''cs_a'',
                    b_createdAt = 1736100060000\<rparr>],
       Holds = [], nextId = 2\<rparr>)
   \<and> confirm Mongo 1736100120000
       \<lparr>Users = [],
        Bookings = [\<lparr>b_id = 1, b_groupId = None, b_service = ''sauna'',
                     b_startISO = 1736146800000, b_endISO = 1736147700000,
                     clientEmail = None, paidSessionId = ''cs_a'',
                     b_createdAt = 1736100060000\<rparr>],
        Holds = [], nextId = 2\<rparr>
       None (Some \<lparr>sid = ''cs_a'', paid = True,
                   metadata = MetaSingle ''sauna'' 1736146800000 0\<rparr>) =
     (HoldExpired,
      \<lparr>Users = [],
       Bookings = [\<lparr>b_id = 1, b_groupId = None, b_service = ''sauna'',
                    b_startISO = 1736146800000, b_endISO = 1736147700000,
                    clientEmail = None, paidSessionId = ''cs_a'',
                    b_createdAt = 1736100060000\<rparr>],
       Holds = [], nextId = 2\<rparr>)"
  by code_simp

text \<open>
  Claim C2.  A hold whose expiry is not later than the current time is not live for
  confirmation, swept or not.  The code does not keep this: the hold placed at
  1736100000000 expires at 1736100720000, and at 1736100780000, with no expiry pass in
  between, confirming its session succeeds and writes the booking; the same holds for
  the two members of a bundle group.
\<close>

theorem confirm_accepts_expired_hold:
  "run Mongo [(1736100000000, CheckoutSingle None ''sauna'' 1736146800000)] emptyStore =
     \<lparr>Users = [], Bookings = [],
      Holds = [\<lparr>h_id = 0, h_type = ''single'', h_groupId = None, h_bundleId = None,
                h_service = ''sauna'', h_startISO = 1736146800000,
                h_endISO = 1736147700000, h_endISOWB = 1736147700000, h_email = None,
                unitAmount = Some 1000, amount = None, expireAt = 1736100720000,
                h_createdAt = 1736100000000\<rparr>],
      nextId = 1\<rparr>
   \<and> run Prisma [(1736100000000, CheckoutSingle None ''sauna'' 1736146800000)] emptyStore =
       run Mongo [(1736100000000, CheckoutSingle None ''sauna'' 1736146800000)] emptyStore
   \<and> (1736100720000 :: instant) \<le> 1736100780000
   \<and> confirm Mongo 1736100780000
        (run Mongo [(1736100000000, CheckoutSingle None ''sauna'' 1736146800000)] emptyStore)
        None (Some \<lparr>sid = ''cs_a'', paid = True,
                    metadata = MetaSingle ''sauna'' 1736146800000 0\<rparr>) =
       (ConfirmedSingle,
        \<lparr>Users = [],
         Bookings = [\<lparr>b_id = 1, b_groupId = None, b_service = ''sauna'',
                      b_startISO = 1736146800000, b_endISO = 1736147700000,
                      clientEmail = None, paidSessionId = ''cs_a'',
                      b_createdAt = 1736100780000\<rparr>],
         Holds = [], nextId = 2\<rparr>)
   \<and> confirm Prisma 1736100780000
        (run Prisma [(1736100000000, CheckoutSingle None ''sauna'' 1736146800000)] emptyStore)
        None (Some \<lparr>sid = ''cs_a'', paid = True,
                    metadata = MetaSingle ''sauna'' 1736146800000 0\<rparr>) =
       confirm Mongo 1736100780000
        (run Mongo [(1736100000000, CheckoutSingle None ''sauna'' 1736146800000)] emptyStore)
        None (Some \<lparr>sid = ''cs_a'', paid = True,
                    metadata = MetaSingle ''sauna'' 1736146800000 0\<rparr>)
   \<and> map expireAt (Holds (run Mongo [(1736100000000,
          CheckoutBundle None ''bundle_alt_cold_sauna''
            [\<lparr>sel_service = ''icebath'', sel_startISO = 1736146800000\<rparr>,
             \<lparr>sel_service = ''sauna'', sel_startISO = 1736147700000\<rparr>])] emptyStore)) =
       [1736100720000, 1736100720000]
   \<and> confirm Mongo 1736100780000
        (run Mongo [(1736100000000,
          CheckoutBundle None ''bundle_alt_cold_sauna''
            [\<lparr>sel_service = ''icebath'', sel_startISO = 1736146800000\<rparr>,
             \<lparr>sel_service = ''sauna'', sel_startISO = 1736147700000\<rparr>])] emptyStore)
        None (Some \<lparr>sid = ''cs_c'', paid = True,
                    metadata = MetaBundle ''bundle_alt_cold_sauna'' 0\<rparr>) =
       (ConfirmedBundle ''bundle_alt_cold_sauna'',
        \<lparr>Users = [],
         Bookings = [\<lparr>b_id = 3, b_groupId = Some 0, b_service = ''icebath'',
                      b_startISO = 1736146800000, b_endISO = 1736147400000,
                      clientEmail = None, paidSessionId = ''cs_c'',
                      b_createdAt = 1736100780000\<rparr>,
                     \<lparr>b_id = 4, b_groupId = Some 0, b_service = ''sauna'',
                      b_startISO = 1736147700000, b_endISO = 1736148600000,
                      clientEmail = None, paidSessionId = ''cs_c'',
                      b_createdAt = 1736100780000\<rparr>],
         Holds = [], nextId = 5\<rparr>)"
  by code_simp

text \<open>
  Claim C1.  No two bookings of one service overlap, whatever the sequence of requests
  from the empty store.  The code does not keep this.  In \<open>lateConfirmation\<close> the first
  hold has run out when the second is placed, so the conflict check passes; the first
  hold is still stored, confirmation looks it up by identifier without reading its
  expiry, and both sessions become bookings of the same sauna slot.  In
  \<open>duplicateBundle\<close> the two selections are checked against the store but not against
  each other, and one confirmation books the sauna twice.
\<close>

theorem double_booking_reachable:
  "run Mongo lateConfirmation emptyStore =
     \<lparr>Users = [],
      Bookings =
        [\<lparr>b_id = 2, b_groupId = None, b_service = ''sauna'', b_startISO = 1736146800000,
           b_endISO = 1736147700000, clientEmail = None, paidSessionId = ''cs_a'',
           b_createdAt = 1736100800000\<rparr>,
         \<lparr>b_id = 3, b_groupId = None, b_service = ''sauna'', b_startISO = 1736146800000,
           b_endISO = 1736147700000, clientEmail = None, paidSessionId = ''cs_b'',
           b_createdAt = 1736100810000\<rparr>],
      Holds = [], nextId = 4\<rparr>
   \<and> run Prisma lateConfirmation emptyStore = run Mongo lateConfirmation emptyStore
   \<and> noDoubleBooking (run Mongo lateConfirmation emptyStore) = False
   \<and> map (\<lambda>b. (b_service b, b_startISO b, b_endISO b))
         (Bookings (run Mongo duplicateBundle emptyStore)) =
       [(''sauna'', 1736146800000, 1736147700000), (''sauna'', 1736146800000, 1736147700000)]
   \<and> run Prisma duplicateBundle emptyStore = run Mongo duplicateBundle emptyStore
   \<and> noDoubleBooking (run Mongo duplicateBundle emptyStore) = False"
  by code_simp

section \<open>Claims about the conflict check\<close>

text \<open>
  Claim C3.  The conflict check is true exactly when the candidate's buffered interval
  overlaps, end points included, the buffered interval of a booking or of a live hold of
  the service.  \<open>overlapsMongo\<close> computes this (lemma \<open>overlapsMongo_bufferedConflict\<close>);
  \<open>overlapsPrisma\<close> does not.  After the hyperbaric session of 07:00 to 08:00 is booked
  (buffer until 08:30), the candidate 08:15 to 09:45 and the candidate that starts at
  08:30 both conflict in the words of the specification, \<open>overlapsPrisma\<close> answers no
  for both, and a hold is placed at 08:15.
\<close>

theorem overlapsPrisma_ignores_buffer_and_touch:
  "run Prisma hbotBooked emptyStore =
     \<lparr>Users = [],
      Bookings = [\<lparr>b_id = 1, b_groupId = None, b_service = ''hbot'',
                   b_startISO = 1736146800000, b_endISO = 1736150400000,
                   clientEmail = None, paidSessionId = ''cs_h'',
                   b_createdAt = 1736100060000\<rparr>],
      Holds = [], nextId = 2\<rparr>
   \<and> intervalWithBuffer ''hbot'' 1736151300000 =
       Inr \<lparr>i_start = 1736151300000, i_end = 1736154900000, i_endWB = 1736156700000\<rparr>
   \<and> bufferedConflict 1736100120000 (run Prisma hbotBooked emptyStore) ''hbot''
        1736151300000 1736156700000
   \<and> overlapsPrisma 1736100120000 (run Prisma hbotBooked emptyStore) ''hbot''
        1736151300000 1736156700000 = False
   \<and> bufferedConflict 1736100120000 (run Prisma hbotBooked emptyStore) ''hbot''
        1736152200000 1736157600000
   \<and> overlapsPrisma 1736100120000 (run Prisma hbotBooked emptyStore) ''hbot''
        1736152200000 1736157600000 = False
   \<and> placeHoldSingle Prisma 1736100120000 (run Prisma hbotBooked emptyStore) ''hbot''
        1736151300000 None 7500 =
       Inr (HoldOk 2,
            \<lparr>Users = [],
             Bookings = [\<lparr>b_id = 1, b_groupId = None, b_service = ''hbot'',
                          b_startISO = 1736146800000, b_endISO = 1736150400000,
                          clientEmail = None, paidSessionId = ''cs_h'',
                          b_createdAt = 1736100060000\<rparr>],
             Holds = [\<lparr>h_id = 2, h_type = ''single'', h_groupId = None,
                       h_bundleId = None, h_service = ''hbot'',
                       h_startISO = 1736151300000, h_endISO = 1736154900000,
                       h_endISOWB = 1736156700000, h_email = None,
                       unitAmount = Some 7500, amount = None,
                       expireAt = 1736100840000, h_createdAt = 1736100120000\<rparr>],
             nextId = 3\<rparr>)"
  by code_simp

text \<open>
  Claim C4.  The two conflict checks agree on every store.  They do not: on the store
  with the hyperbaric booking the candidate inside the buffer conflicts for
  \<open>overlapsMongo\<close> and not for \<open>overlapsPrisma\<close>; and against a live sauna hold of
  07:00 to 07:15 the candidate that starts at 07:15 conflicts for \<open>overlapsMongo\<close>
  only.  What does hold is one direction, lemma \<open>overlapsPrisma_imp_bufferedConflict\<close>.
\<close>

theorem backends_disagree:
  "overlapsMongo 1736100120000 (run Mongo hbotBooked emptyStore) ''hbot''
      1736151300000 1736156700000
   \<and> \<not> overlapsPrisma 1736100120000 (run Mongo hbotBooked emptyStore) ''hbot''
      1736151300000 1736156700000
   \<and> run Prisma hbotBooked emptyStore = run Mongo hbotBooked emptyStore
   \<and> overlapsMongo 1736100060000
        (run Mongo [(1736100000000, CheckoutSingle None ''sauna'' 1736146800000)] emptyStore)
        ''sauna'' 1736147700000 1736148600000
   \<and> \<not> overlapsPrisma 1736100060000
        (run Mongo [(1736100000000, CheckoutSingle None ''sauna'' 1736146800000)] emptyStore)
        ''sauna'' 1736147700000 1736148600000"
  by code_simp

section \<open>Claims about pricing and bundle checkout\<close>

text \<open>
  Ann has one credit and checks out two hyperbaric sessions, Monday 07:00 and Monday
  09:00, a minute apart: both quotes read the balance 1, so both holds store the charge
  6000.  The first confirmation takes the credit.  The second confirmation, of a hold that
  was created for a customer with a positive balance and stores the discounted charge,
  answers ok and takes nothing: the balance stays 0.  Both backends behave alike.
\<close>

theorem second_discounted_hold_takes_no_credit:
  "run Mongo (take 2 twoDiscountedHolds) annOneCredit =
     \<lparr>Users = [\<lparr>u_email = ''ann@example.org'', u_name = ''Ann'', hbotCredits = 1\<rparr>],
      Bookings = [],
      Holds = [\<lparr>h_id = 0, h_type = ''single'', h_groupId = None, h_bundleId = None,
                h_service = ''hbot'', h_startISO = 1736146800000,
                h_endISO = 1736150400000, h_endISOWB = 1736152200000,
                h_email = Some ''ann@example.org'', unitAmount = Some 6000,
                amount = None, expireAt = 1736100720000, h_createdAt = 1736100000000\<rparr>,
               \<lparr>h_id = 1, h_type = ''single'', h_groupId = None, h_bundleId = None,
                h_service = ''hbot'', h_startISO = 1736154000000,
                h_endISO = 1736157600000, h_endISOWB = 1736159400000,
                h_email = Some ''ann@example.org'', unitAmount = Some 6000,
                amount = None, expireAt = 1736100780000, h_createdAt = 1736100060000\<rparr>],
      nextId = 2\<rparr>
   \<and> run Mongo (take 3 twoDiscountedHolds) annOneCredit =
     \<lparr>Users = [\<lparr>u_email = ''ann@example.org'', u_name = ''Ann'', hbotCredits = 0\<rparr>],
      Bookings = [\<lparr>b_id = 2, b_groupId = None, b_service = ''hbot'',
                   b_startISO = 1736146800000, b_endISO = 1736150400000,
                   clientEmail = Some ''ann@example.org'', paidSessionId = ''cs_1'',
                   b_createdAt = 1736100120000\<rparr>],
      Holds = [\<lparr>h_id = 1, h_type = ''single'', h_groupId = None, h_bundleId = None,
                h_service = ''hbot'', h_startISO = 1736154000000,
                h_endISO = 1736157600000, h_endISOWB = 1736159400000,
                h_email = Some ''ann@example.org'', unitAmount = Some 6000,
                amount = None, expireAt = 1736100780000, h_createdAt = 1736100060000\<rparr>],
      nextId = 3\<rparr>
   \<and> confirm Mongo 1736100180000 (run Mongo (take 3 twoDiscountedHolds) annOneCredit)
        (Some ''ann@example.org'')
        (Some \<lparr>sid = ''cs_2'', paid = True, metadata = MetaSingle ''hbot'' 1736154000000 1\<rparr>) =
     (ConfirmedSingle,
      \<lparr>Users = [\<lparr>u_email = ''ann@example.org'', u_name = ''Ann'', hbotCredits = 0\<rparr>],
       Bookings = [\<lparr>b_id = 2, b_groupId = None, b_service = ''hbot'',
                    b_startISO = 1736146800000, b_endISO = 1736150400000,
                    clientEmail = Some ''ann@example.org'', paidSessionId = ''cs_1'',
                    b_createdAt = 1736100120000\<rparr>,
                   \<lparr>b_id = 3, b_groupId = None, b_service = ''hbot'',
                    b_startISO = 1736154000000, b_endISO = 1736157600000,
                    clientEmail = Some ''ann@example.org'', paidSessionId = ''cs_2'',
                    b_createdAt = 1736100180000\<rparr>],
       Holds = [], nextId = 4\<rparr>)
   \<and> run Prisma (take 2 twoDiscountedHolds) annOneCredit =
       run Mongo (take 2 twoDiscountedHolds) annOneCredit
   \<and> run Prisma (take 3 twoDiscountedHolds) annOneCredit =
       run Mongo (take 3 twoDiscountedHolds) annOneCredit
   \<and> confirm Prisma 1736100180000 (run Prisma (take 3 twoDiscountedHolds) annOneCredit)
        (Some ''ann@example.org'')
        (Some \<lparr>sid = ''cs_2'', paid = True, metadata = MetaSingle ''hbot'' 1736154000000 1\<rparr>) =
     confirm Mongo 1736100180000 (run Mongo (take 3 twoDiscountedHolds) annOneCredit)
        (Some ''ann@example.org'')
        (Some \<lparr>sid = ''cs_2'', paid = True, metadata = MetaSingle ''hbot'' 1736154000000 1\<rparr>)"
  by code_simp

text \<open>
  Claim C9.  A customer with a positive credit balance is quoted 60 for the hyperbaric
  service, and the hold placed at checkout stores 6000 minor units as its charge.
  Confirming the session of that checkout on the store the checkout left takes exactly
  one credit from that customer.  In general the balance is read again at confirmation:
  confirming a hyperbaric hold that stores the charge 6000 and the customer's email
  answers ok, and takes one credit when the customer's balance is positive at that moment
  and none otherwise.  For another service, or for a customer with no user record or no
  positive balance, the base price is quoted and stored, it never equals 6000, and
  confirming a hold of another service or with another charge leaves every balance as it
  was.
\<close>

theorem hbot_credit_consumed_while_positive:
  "(0 < hbotCredits usr \<longrightarrow> userPriceFor ''hbot'' (Some usr) = Inr 60)
   \<and> (findUser st e = Some usr \<and> e \<noteq> [] \<and> 0 < hbotCredits usr
        \<and> list_all (\<lambda>h. h_id h < nextId st) (Holds st)
        \<and> checkoutSingle be now st (Some e) ''hbot'' startISO =
            Inr (SessionCreated m charged, st1)
      \<longrightarrow> charged = 6000 \<and> m = MetaSingle ''hbot'' startISO (nextId st)
          \<and> (\<exists>h. Holds st1 = Holds st @ [h] \<and> h_id h = nextId st \<and> h_service h = ''hbot''
                  \<and> unitAmount h = Some 6000 \<and> h_email h = Some e)
          \<and> (\<exists>st2. confirm be now' st1 cookie' (Some \<lparr>sid = s, paid = True, metadata = m\<rparr>)
                    = (ConfirmedSingle, st2)
                  \<and> Users st2 = incCredits e (- 1) (Users st)
                  \<and> findUser st2 e = Some (usr\<lparr>hbotCredits := hbotCredits usr - 1\<rparr>)))
   \<and> (find (\<lambda>h. h_id h = holdId) (Holds st) = Some hld
        \<and> unitAmount hld = Some 6000 \<and> h_email hld = Some e \<and> e \<noteq> []
        \<and> findUser st e = Some usr
      \<longrightarrow> (\<exists>st2. confirm be now st cookie
                    (Some \<lparr>sid = s, paid = True, metadata = MetaSingle ''hbot'' startISO holdId\<rparr>)
                    = (ConfirmedSingle, st2)
                \<and> Users st2 =
                    (if 0 < hbotCredits usr then incCredits e (- 1) (Users st) else Users st)
                \<and> findUser st2 e =
                    Some (if 0 < hbotCredits usr
                          then usr\<lparr>hbotCredits := hbotCredits usr - 1\<rparr> else usr)))
   \<and> (SERVICES k = Some svc
        \<and> (k \<noteq> ''hbot''
            \<or> (case (case orNull cookie of None \<Rightarrow> None | Some a \<Rightarrow> findUser st a) of
                  None \<Rightarrow> True | Some x \<Rightarrow> hbotCredits x \<le> 0))
      \<longrightarrow> userPriceFor k (case orNull cookie of None \<Rightarrow> None | Some a \<Rightarrow> findUser st a)
            = Inr (price svc)
          \<and> price svc * 100 \<noteq> 6000
          \<and> (checkoutSingle be now st cookie k startISO = Inr (SessionCreated m charged, st1)
              \<longrightarrow> charged = price svc * 100 \<and> Users st1 = Users st
                  \<and> (\<exists>h. Holds st1 = Holds st @ [h] \<and> h_id h = nextId st
                          \<and> unitAmount h = Some (price svc * 100))))
   \<and> (service \<noteq> ''hbot''
        \<or> (case find (\<lambda>h. h_id h = holdId) (Holds st) of
              None \<Rightarrow> True | Some h \<Rightarrow> unitAmount h \<noteq> Some 6000)
      \<longrightarrow> Users (snd (confirm be now st cookie
              (Some \<lparr>sid = s, paid = p, metadata = MetaSingle service startISO holdId\<rparr>)))
            = Users st)"
proof (intro conjI impI)
  assume "0 < hbotCredits usr"
  then show "userPriceFor ''hbot'' (Some usr) = Inr 60"
    by (rule userPriceFor_credit)
next
  assume a: "findUser st e = Some usr \<and> e \<noteq> [] \<and> 0 < hbotCredits usr
        \<and> list_all (\<lambda>h. h_id h < nextId st) (Holds st)
        \<and> checkoutSingle be now st (Some e) ''hbot'' startISO =
            Inr (SessionCreated m charged, st1)"
  then have u: "findUser st e = Some usr" and e: "e \<noteq> []" and c: "0 < hbotCredits usr"
    and f: "list_all (\<lambda>h. h_id h < nextId st) (Holds st)"
    and co: "checkoutSingle be now st (Some e) ''hbot'' startISO =
            Inr (SessionCreated m charged, st1)"
    by simp_all
  from checkoutSingle_hbot_credit[OF u e c co]
  show "charged = 6000" and "m = MetaSingle ''hbot'' startISO (nextId st)"
    and "\<exists>h. Holds st1 = Holds st @ [h] \<and> h_id h = nextId st \<and> h_service h = ''hbot''
                  \<and> unitAmount h = Some 6000 \<and> h_email h = Some e"
    by simp_all
  from checkout_confirm_consumes_credit[OF u e c f co]
  show "\<exists>st2. confirm be now' st1 cookie' (Some \<lparr>sid = s, paid = True, metadata = m\<rparr>)
                    = (ConfirmedSingle, st2)
                  \<and> Users st2 = incCredits e (- 1) (Users st)
                  \<and> findUser st2 e = Some (usr\<lparr>hbotCredits := hbotCredits usr - 1\<rparr>)" .
next
  assume a: "find (\<lambda>h. h_id h = holdId) (Holds st) = Some hld
        \<and> unitAmount hld = Some 6000 \<and> h_email hld = Some e \<and> e \<noteq> []
        \<and> findUser st e = Some usr"
  then have f: "find (\<lambda>h. h_id h = holdId) (Holds st) = Some hld"
    and c: "unitAmount hld = Some 6000" and m: "h_email hld = Some e" and e: "e \<noteq> []"
    and u: "findUser st e = Some usr"
    by simp_all
  from confirm_credit_rule[OF f c m e u]
  show "\<exists>st2. confirm be now st cookie
                    (Some \<lparr>sid = s, paid = True, metadata = MetaSingle ''hbot'' startISO holdId\<rparr>)
                    = (ConfirmedSingle, st2)
                \<and> Users st2 =
                    (if 0 < hbotCredits usr then incCredits e (- 1) (Users st) else Users st)
                \<and> findUser st2 e =
                    Some (if 0 < hbotCredits usr
                          then usr\<lparr>hbotCredits := hbotCredits usr - 1\<rparr> else usr)" .
next
  assume a: "SERVICES k = Some svc
        \<and> (k \<noteq> ''hbot''
            \<or> (case (case orNull cookie of None \<Rightarrow> None | Some a \<Rightarrow> findUser st a) of
                  None \<Rightarrow> True | Some x \<Rightarrow> hbotCredits x \<le> 0))"
  then have svc: "SERVICES k = Some svc"
    and z: "k \<noteq> ''hbot''
            \<or> (case (case orNull cookie of None \<Rightarrow> None | Some a \<Rightarrow> findUser st a) of
                  None \<Rightarrow> True | Some x \<Rightarrow> hbotCredits x \<le> 0)"
    by simp_all
  from svc z
  show "userPriceFor k (case orNull cookie of None \<Rightarrow> None | Some a \<Rightarrow> findUser st a)
            = Inr (price svc)"
    by (rule userPriceFor_base)
  from svc show "price svc * 100 \<noteq> 6000"
    by (rule SERVICES_price_not_60)
  assume co: "checkoutSingle be now st cookie k startISO = Inr (SessionCreated m charged, st1)"
  from checkoutSingle_base_price[OF svc z co]
  show "charged = price svc * 100" and "Users st1 = Users st"
    and "\<exists>h. Holds st1 = Holds st @ [h] \<and> h_id h = nextId st
                          \<and> unitAmount h = Some (price svc * 100)"
    by simp_all
next
  assume "service \<noteq> ''hbot''
        \<or> (case find (\<lambda>h. h_id h = holdId) (Holds st) of
              None \<Rightarrow> True | Some h \<Rightarrow> unitAmount h \<noteq> Some 6000)"
  then show "Users (snd (confirm be now st cookie
              (Some \<lparr>sid = s, paid = p, metadata = MetaSingle service startISO holdId\<rparr>)))
            = Users st"
    by (rule confirm_keeps_credit)
qed

text \<open>
  Ann has three credits.  She checks out the hyperbaric session of Monday 07:00 and the
  session is confirmed a minute later: the balance is 2.  With no credit left and a
  hyperbaric hold that stores 6000 still in the store, the confirmation answers ok and
  the balance stays 0.  With three credits she checks out the sauna at the base price
  1000, and confirming that sauna hold answers ok and leaves the balance at 3.
\<close>

theorem hbot_credit_consumed_while_positive_witness:
  "userPriceFor ''hbot'' (Some \<lparr>u_email = ''ann@example.org'', u_name = ''Ann'', hbotCredits = 3\<rparr>)
     = Inr 60
   \<and> checkoutSingle Mongo 1736100000000
        \<lparr>Users = [\<lparr>u_email = ''ann@example.org'', u_name = ''Ann'', hbotCredits = 3\<rparr>],
         Bookings = [], Holds = [], nextId = 0\<rparr>
        (Some ''ann@example.org'') ''hbot'' 1736146800000 =
       Inr (SessionCreated (MetaSingle ''hbot'' 1736146800000 0) 6000,
            \<lparr>Users = [\<lparr>u_email = ''ann@example.org'', u_name = ''Ann'', hbotCredits = 3\<rparr>],
             Bookings = [],
             Holds = [\<lparr>h_id = 0, h_type = ''single'', h_groupId = None, h_bundleId = None,
                       h_service = ''hbot'', h_startISO = 1736146800000,
                       h_endISO = 1736150400000, h_endISOWB = 1736152200000,
                       h_email = Some ''ann@example.org'', unitAmount = Some 6000,
                       amount = None, expireAt = 1736100720000,
                       h_createdAt = 1736100000000\<rparr>],
             nextId = 1\<rparr>)
   \<and> (\<exists>st2. confirm Mongo 1736100060000
          \<lparr>Users = [\<lparr>u_email = ''ann@example.org'', u_name = ''Ann'', hbotCredits = 3\<rparr>],
           Bookings = [],
           Holds = [\<lparr>h_id = 0, h_type = ''single'', h_groupId = None, h_bundleId = None,
                     h_service = ''hbot'', h_startISO = 1736146800000,
                     h_endISO = 1736150400000, h_endISOWB = 1736152200000,
                     h_email = Some ''ann@example.org'', unitAmount = Some 6000,
                     amount = None, expireAt = 1736100720000,
                     h_createdAt = 1736100000000\<rparr>],
           nextId = 1\<rparr>
          None (Some \<lparr>sid = ''cs_h'', paid = True,
                      metadata = MetaSingle ''hbot'' 1736146800000 0\<rparr>) = (ConfirmedSingle, st2)
        \<and> Users st2 = [\<lparr>u_email = ''ann@example.org'', u_name = ''Ann'', hbotCredits = 2\<rparr>]
        \<and> findUser st2 ''ann@example.org'' =
            Some \<lparr>u_email = ''ann@example.org'', u_name = ''Ann'', hbotCredits = 2\<rparr>)
   \<and> (\<exists>st2. confirm Mongo 1736100180000
          \<lparr>Users = [\<lparr>u_email = ''ann@example.org'', u_name = ''Ann'', hbotCredits = 0\<rparr>],
           Bookings = [],
           Holds = [\<lparr>h_id = 1, h_type = ''single'', h_groupId = None, h_bundleId = None,
                     h_service = ''hbot'', h_startISO = 1736154000000,
                     h_endISO = 1736157600000, h_endISOWB = 1736159400000,
                     h_email = Some ''ann@example.org'', unitAmount = Some 6000,
                     amount = None, expireAt = 1736100780000,
                     h_createdAt = 1736100060000\<rparr>],
           nextId = 3\<rparr>
          None (Some \<lparr>sid = ''cs_2'', paid = True,
                      metadata = MetaSingle ''hbot'' 1736154000000 1\<rparr>) = (ConfirmedSingle, st2)
        \<and> Users st2 = [\<lparr>u_email = ''ann@example.org'', u_name = ''Ann'', hbotCredits = 0\<rparr>]
        \<and> findUser st2 ''ann@example.org'' =
            Some \<lparr>u_email = ''ann@example.org'', u_name = ''Ann'', hbotCredits = 0\<rparr>)
   \<and> userPriceFor ''sauna''
        (Some \<lparr>u_email = ''ann@example.org'', u_name = ''Ann'', hbotCredits = 3\<rparr>) = Inr 10
   \<and> checkoutSingle Mongo 1736100000000
        \<lparr>Users = [\<lparr>u_email = ''ann@example.org'', u_name = ''Ann'', hbotCredits = 3\<rparr>],
         Bookings = [], Holds = [], nextId = 0\<rparr>
        (Some ''ann@example.org'') ''sauna'' 1736146800000 =
       Inr (SessionCreated (MetaSingle ''sauna'' 1736146800000 0) 1000,
            \<lparr>Users = [\<lparr>u_email = ''ann@example.org'', u_name = ''Ann'', hbotCredits = 3\<rparr>],
             Bookings = [],
             Holds = [\<lparr>h_id = 0, h_type = ''single'', h_groupId = None, h_bundleId = None,
                       h_service = ''sauna'', h_startISO = 1736146800000,
                       h_endISO = 1736147700000, h_endISOWB = 1736147700000,
                       h_email = Some ''ann@example.org'', unitAmount = Some 1000,
                       amount = None, expireAt = 1736100720000,
                       h_createdAt = 1736100000000\<rparr>],
             nextId = 1\<rparr>)
   \<and> fst (confirm Mongo 1736100060000
          \<lparr>Users = [\<lparr>u_email = ''ann@example.org'', u_name = ''Ann'', hbotCredits = 3\<rparr>],
           Bookings = [],
           Holds = [\<lparr>h_id = 0, h_type = ''single'', h_groupId = None, h_bundleId = None,
                     h_service = ''sauna'', h_startISO = 1736146800000,
                     h_endISO = 1736147700000, h_endISOWB = 1736147700000,
                     h_email = Some ''ann@example.org'', unitAmount = Some 1000,
                     amount = None, expireAt = 1736100720000,
                     h_createdAt = 1736100000000\<rparr>],
           nextId = 1\<rparr> (Some ''ann@example.org'')
          (Some \<lparr>sid = ''cs_s'', paid = True,
                  metadata = MetaSingle ''sauna'' 1736146800000 0\<rparr>)) = ConfirmedSingle
   \<and> Users (snd (confirm Mongo 1736100060000
          \<lparr>Users = [\<lparr>u_email = ''ann@example.org'', u_name = ''Ann'', hbotCredits = 3\<rparr>],
           Bookings = [],
           Holds = [\<lparr>h_id = 0, h_type = ''single'', h_groupId = None, h_bundleId = None,
                     h_service = ''sauna'', h_startISO = 1736146800000,
                     h_endISO = 1736147700000, h_endISOWB = 1736147700000,
                     h_email = Some ''ann@example.org'', unitAmount = Some 1000,
                     amount = None, expireAt = 1736100720000,
                     h_createdAt = 1736100000000\<rparr>],
           nextId = 1\<rparr> (Some ''ann@example.org'')
          (Some \<lparr>sid = ''cs_s'', paid = True,
                  metadata = MetaSingle ''sauna'' 1736146800000 0\<rparr>))) =
       [\<lparr>u_email = ''ann@example.org'', u_name = ''Ann'', hbotCredits = 3\<rparr>]"
proof -
  let ?ann = "\<lparr>u_email = ''ann@example.org'', u_name = ''Ann'', hbotCredits = 3\<rparr>"
  let ?annz = "\<lparr>u_email = ''ann@example.org'', u_name = ''Ann'', hbotCredits = 0\<rparr>"
  let ?st = "\<lparr>Users = [?ann], Bookings = [], Holds = [], nextId = 0\<rparr>"
  let ?stc = "\<lparr>Users = [?ann], Bookings = [],
             Holds = [\<lparr>h_id = 0, h_type = ''single'', h_groupId = None, h_bundleId = None,
                       h_service = ''hbot'', h_startISO = 1736146800000,
                       h_endISO = 1736150400000, h_endISOWB = 1736152200000,
                       h_email = Some ''ann@example.org'', unitAmount = Some 6000,
                       amount = None, expireAt = 1736100720000,
                       h_createdAt = 1736100000000\<rparr>],
             nextId = 1\<rparr>"
  let ?hz = "\<lparr>h_id = 1, h_type = ''single'', h_groupId = None, h_bundleId = None,
                     h_service = ''hbot'', h_startISO = 1736154000000,
                     h_endISO = 1736157600000, h_endISOWB = 1736159400000,
                     h_email = Some ''ann@example.org'', unitAmount = Some 6000,
                     amount = None, expireAt = 1736100780000,
                     h_createdAt = 1736100060000\<rparr>"
  let ?stz = "\<lparr>Users = [?annz], Bookings = [], Holds = [?hz], nextId = 3\<rparr>"
  let ?sts = "\<lparr>Users = [?ann], Bookings = [],
           Holds = [\<lparr>h_id = 0, h_type = ''single'', h_groupId = None, h_bundleId = None,
                     h_service = ''sauna'', h_startISO = 1736146800000,
                     h_endISO = 1736147700000, h_endISOWB = 1736147700000,
                     h_email = Some ''ann@example.org'', unitAmount = Some 1000,
                     amount = None, expireAt = 1736100720000,
                     h_createdAt = 1736100000000\<rparr>],
           nextId = 1\<rparr>"
  let ?sauna = "\<lparr>svc_name = ''Infrared Sauna'', duration = 15, price = 10\<rparr>"
  have co: "checkoutSingle Mongo 1736100000000 ?st (Some ''ann@example.org'') ''hbot''
      1736146800000 = Inr (SessionCreated (MetaSingle ''hbot'' 1736146800000 0) 6000, ?stc)"
    by code_simp
  have cs: "checkoutSingle Mongo 1736100000000 ?st (Some ''ann@example.org'') ''sauna''
      1736146800000 = Inr (SessionCreated (MetaSingle ''sauna'' 1736146800000 0) 1000, ?sts)"
    by code_simp
  have fs: "fst (confirm Mongo 1736100060000 ?sts (Some ''ann@example.org'')
          (Some \<lparr>sid = ''cs_s'', paid = True,
                  metadata = MetaSingle ''sauna'' 1736146800000 0\<rparr>)) = ConfirmedSingle"
    by code_simp
  have u: "findUser ?st ''ann@example.org'' = Some ?ann"
    by (simp add: findUser_def)
  have u0: "findUser ?stz ''ann@example.org'' = Some ?annz"
    by (simp add: findUser_def)
  have sv: "SERVICES ''sauna'' = Some ?sauna"
    by (simp add: SERVICES_def)
  note th = hbot_credit_consumed_while_positive[where usr = "?ann" and st = "?st"
      and e = "''ann@example.org''"
      and be = Mongo and now = 1736100000000 and startISO = 1736146800000
      and m = "MetaSingle ''hbot'' 1736146800000 0" and charged = 6000 and ?st1.0 = "?stc"
      and now' = 1736100060000 and cookie' = None and s = "''cs_h''"
      and k = "''sauna''" and svc = "?sauna"
      and cookie = "Some ''ann@example.org''" and service = "''sauna''" and holdId = 0
      and p = True]
  from th have p1: "userPriceFor ''hbot'' (Some ?ann) = Inr 60"
    by simp
  from th u co have p2: "\<exists>st2. confirm Mongo 1736100060000 ?stc None
        (Some \<lparr>sid = ''cs_h'', paid = True, metadata = MetaSingle ''hbot'' 1736146800000 0\<rparr>)
          = (ConfirmedSingle, st2)
        \<and> Users st2 = [\<lparr>u_email = ''ann@example.org'', u_name = ''Ann'', hbotCredits = 2\<rparr>]
        \<and> findUser st2 ''ann@example.org'' =
            Some \<lparr>u_email = ''ann@example.org'', u_name = ''Ann'', hbotCredits = 2\<rparr>"
    by simp
  from th sv have p3: "userPriceFor ''sauna'' (Some ?ann) = Inr 10"
    by (simp add: orNull_def u)
  from hbot_credit_consumed_while_positive[where usr = "?annz" and st = "?stz"
      and e = "''ann@example.org''" and hld = "?hz" and holdId = 1
      and be = Mongo and now = 1736100180000 and cookie = None and s = "''cs_2''"
      and startISO = 1736154000000] u0
  have p5: "\<exists>st2. confirm Mongo 1736100180000 ?stz None
        (Some \<lparr>sid = ''cs_2'', paid = True, metadata = MetaSingle ''hbot'' 1736154000000 1\<rparr>)
          = (ConfirmedSingle, st2)
        \<and> Users st2 = [?annz]
        \<and> findUser st2 ''ann@example.org'' = Some ?annz"
    by simp
  from hbot_credit_consumed_while_positive[where st = "?sts" and service = "''sauna''"
      and be = Mongo
      and now = 1736100060000 and cookie = "Some ''ann@example.org''" and s = "''cs_s''"
      and p = True and startISO = 1736146800000 and holdId = 0]
  have p4: "Users (snd (confirm Mongo 1736100060000 ?sts (Some ''ann@example.org'')
          (Some \<lparr>sid = ''cs_s'', paid = True,
                  metadata = MetaSingle ''sauna'' 1736146800000 0\<rparr>))) = [?ann]"
    by simp
  from p1 co p2 p5 p3 cs fs p4 show ?thesis by blast
qed

text \<open>
  Claim C10.  Bundle checkout compares only the number of selections with the bundle's
  service list.  Whenever the bundle exists, the count matches and every selection passes
  the hold checks, the checkout answers with a payment session at the bundle's fixed
  price and places one hold for each service as supplied, whatever those services are.
\<close>

theorem checkoutBundle_checks_count_only:
  "find (\<lambda>b. bundle_id b = bundleId) BUNDLES = Some bdl
   \<and> length sels = length (services bdl)
   \<and> list_all (selectionPasses be now st) sels
   \<longrightarrow> (\<exists>docs. checkoutBundle be now st cookie bundleId sels =
            Inr (SessionCreated (MetaBundle bundleId (nextId st)) (bundle_price bdl * 100),
                 st\<lparr>Holds := Holds st @ docs, nextId := Suc (nextId st) + length sels\<rparr>)
          \<and> map h_service docs = map sel_service sels
          \<and> list_all (\<lambda>h. amount h = Some (bundle_price bdl * 100)) docs)"
proof
  assume a: "find (\<lambda>b. bundle_id b = bundleId) BUNDLES = Some bdl
   \<and> length sels = length (services bdl)
   \<and> list_all (selectionPasses be now st) sels"
  then have "find (\<lambda>b. bundle_id b = bundleId) BUNDLES = Some bdl"
    and "length sels = length (services bdl)"
    and "list_all (selectionPasses be now st) sels"
    by simp_all
  then show "\<exists>docs. checkoutBundle be now st cookie bundleId sels =
            Inr (SessionCreated (MetaBundle bundleId (nextId st)) (bundle_price bdl * 100),
                 st\<lparr>Holds := Holds st @ docs, nextId := Suc (nextId st) + length sels\<rparr>)
          \<and> map h_service docs = map sel_service sels
          \<and> list_all (\<lambda>h. amount h = Some (bundle_price bdl * 100)) docs"
    by (rule checkoutBundle_count_only)
qed

text \<open>
  The cold plunge and sauna bundle (20 dollars) checked out with the hyperbaric session
  at Monday 07:00 and the vibration plate at 09:00.
\<close>

theorem checkoutBundle_checks_count_only_witness:
  "find (\<lambda>b. bundle_id b = ''bundle_alt_cold_sauna'') BUNDLES =
     Some \<lparr>bundle_id = ''bundle_alt_cold_sauna'',
           label = ''Cold Plunge + Sauna Alternating Therapy'',
           services = [''icebath'', ''sauna''], bundle_price = 20, totalMinutes = 30\<rparr>
   \<and> list_all (selectionPasses Mongo 1736100000000 emptyStore)
        [\<lparr>sel_service = ''hbot'', sel_startISO = 1736146800000\<rparr>,
         \<lparr>sel_service = ''lymph'', sel_startISO = 1736154000000\<rparr>]
   \<and> (\<exists>docs. checkoutBundle Mongo 1736100000000 emptyStore (Some ''a@b.c'')
          ''bundle_alt_cold_sauna''
          [\<lparr>sel_service = ''hbot'', sel_startISO = 1736146800000\<rparr>,
           \<lparr>sel_service = ''lymph'', sel_startISO = 1736154000000\<rparr>] =
          Inr (SessionCreated (MetaBundle ''bundle_alt_cold_sauna'' 0) 2000,
               emptyStore\<lparr>Holds := docs, nextId := 3\<rparr>)
        \<and> map h_service docs = [''hbot'', ''lymph'']
        \<and> list_all (\<lambda>h. amount h = Some 2000) docs)"
proof -
  let ?sels = "[\<lparr>sel_service = ''hbot'', sel_startISO = 1736146800000\<rparr>,
         \<lparr>sel_service = ''lymph'', sel_startISO = 1736154000000\<rparr>]"
  let ?bdl = "\<lparr>bundle_id = ''bundle_alt_cold_sauna'',
           label = ''Cold Plunge + Sauna Alternating Therapy'',
           services = [''icebath'', ''sauna''], bundle_price = 20, totalMinutes = 30\<rparr>"
  have b: "find (\<lambda>b. bundle_id b = ''bundle_alt_cold_sauna'') BUNDLES = Some ?bdl"
    by code_simp
  have p: "list_all (selectionPasses Mongo 1736100000000 emptyStore) ?sels"
    by code_simp
  from checkoutBundle_checks_count_only[where bundleId = "''bundle_alt_cold_sauna''"
      and bdl = "?bdl" and sels = "?sels" and be = Mongo and now = 1736100000000
      and st = emptyStore and cookie = "Some ''a@b.c''"] b p
  have "\<exists>docs. checkoutBundle Mongo 1736100000000 emptyStore (Some ''a@b.c'')
          ''bundle_alt_cold_sauna'' ?sels =
          Inr (SessionCreated (MetaBundle ''bundle_alt_cold_sauna'' 0) 2000,
               emptyStore\<lparr>Holds := docs, nextId := 3\<rparr>)
        \<and> map h_service docs = [''hbot'', ''lymph'']
        \<and> list_all (\<lambda>h. amount h = Some 2000) docs"
    by (simp add: emptyStore_def eval_nat_numeral)
  with b p show ?thesis by blast
qed

end
